theory Spec2Isabelle
  imports Main "HOL-Library.Word"
begin


section \<open>Go values shared by the stores\<close>

text \<open>
  Go's \<open>int64\<close> is a 64-bit word: \<open>+\<close> wraps around, \<open>sint\<close> reads the signed
  value. A Go \<open>string\<close> is a byte sequence, here a \<open>string\<close> (a list of 8-bit characters).
\<close>

type_synonym int64 = "64 word"

subsection \<open>Errors\<close>

text \<open>
  \<open>sqlerr\<close> is what the SQL driver hands back; \<open>error\<close> is a Go error value as the
  stores return it. \<open>Wrapped e msg\<close> is \<open>errors.Wrap(e, msg)\<close> (and
  \<open>fmt.Errorf("msg: %w", e)\<close>): a new error that keeps \<open>e\<close> as its cause.

  Modelled from the spec: \<open>ProcessSQLErrorf\<close> (and the package-private
  \<open>processSQLErrorf\<close>) is not among the sources. Section 7 of the specification says that
  storage-layer errors are wrapped with context and propagated, and that
  \<open>VersionConflict\<close> is the sole signal of a lost race; so its result is the
  constructor \<open>SQLError\<close>, an error of its own that carries the driver's error and the
  message and is never a version conflict.
\<close>

datatype sqlerr = ErrNoRows | DriverError string

datatype error =
    ErrVersionConflict
  | ErrNoChangeInRequestedMove
  | ErrRepositoryPathEmpty
  | ErrNotFound
  | ErrDuplicatePath
  | ErrInvalidPath
  | SQLError sqlerr string
  | GiteaError string string
  | OtherError string
  | Wrapped error string

text \<open>\<open>errors.Is(err, target)\<close>: \<open>target\<close> is \<open>err\<close> or one of the causes it wraps.\<close>

fun errors_Is :: "error \<Rightarrow> error \<Rightarrow> bool" where
  "errors_Is (Wrapped e msg) target = (Wrapped e msg = target \<or> errors_Is e target)"
| "errors_Is e target = (e = target)"


section \<open>types/enum/order.go\<close>

text \<open>
  \<open>type Order int\<close> with \<open>OrderDefault = iota\<close>, \<open>OrderAsc\<close>, \<open>OrderDesc\<close>. The type
  is an integer type, so an \<open>Order\<close> can hold any integer, not only the three named ones.
\<close>

type_synonym Order = int

definition OrderDefault :: Order where "OrderDefault = 0"
definition OrderAsc :: Order where "OrderAsc = 1"
definition OrderDesc :: Order where "OrderDesc = 2"

definition Order_String :: "Order \<Rightarrow> string" where
  "Order_String e = (if e = OrderDesc then ''desc'' else ''asc'')"

text \<open>
  \<open>strings.ToLower\<close> of the Go library. On a string of ASCII bytes it maps the bytes
  \<open>A\<close>..\<open>Z\<close> to \<open>a\<close>..\<open>z\<close> and keeps every other byte. On any other string it maps
  Unicode's lower-case function over the decoded runes; that table is taken as the
  parameter \<open>U\<close>.
\<close>

definition isASCII :: "string \<Rightarrow> bool" where
  "isASCII s = list_all (\<lambda>c. (of_char c :: nat) < 128) s"

definition lower_byte :: "char \<Rightarrow> char" where
  "lower_byte c =
     (let n = (of_char c :: nat) in if 65 \<le> n \<and> n \<le> 90 then char_of (n + 32) else c)"

definition ToLower :: "(string \<Rightarrow> string) \<Rightarrow> string \<Rightarrow> string" where
  "ToLower U s = (if isASCII s then map lower_byte s else U s)"

definition ParseOrder :: "(string \<Rightarrow> string) \<Rightarrow> string \<Rightarrow> Order" where
  "ParseOrder U s =
     (let l = ToLower U s in
      if l = ''asc'' \<or> l = ''ascending'' then OrderAsc
      else if l = ''desc'' \<or> l = ''descending'' then OrderDesc
      else OrderDefault)"


section \<open>The git adapter: HasBranches\<close>

text \<open>
  \<open>strings.TrimSpace\<close> removes the leading and trailing white space of a string, white
  space being what \<open>unicode.IsSpace\<close> accepts. The command's output is read as its
  sequence of Unicode code points (a \<open>nat\<close> each).
\<close>

type_synonym rune = nat

definition IsSpace :: "rune \<Rightarrow> bool" where
  "IsSpace r =
     ((9 \<le> r \<and> r \<le> 13) \<or> r = 32 \<or> r = 133 \<or> r = 160 \<or> r = 5760
      \<or> (8192 \<le> r \<and> r \<le> 8202) \<or> r = 8232 \<or> r = 8233 \<or> r = 8239 \<or> r = 8287
      \<or> r = 12288)"

definition TrimSpace :: "rune list \<Rightarrow> rune list" where
  "TrimSpace s = rev (dropWhile IsSpace (rev (dropWhile IsSpace s)))"

text \<open>
  \<open>gitea.NewCommand(ctx, args...).RunStdBytes(&RunOpts{Dir: dir})\<close> runs git; what it
  returns (standard output, standard error, and an error or nil) is the parameter
  \<open>RunStdBytes\<close>, a function of the arguments and the directory.
  \<open>processGiteaErrorf\<close> is not among the sources: its result is the constructor
  \<open>GiteaError\<close> of the command's error and the message.
\<close>

type_synonym git = "string list \<Rightarrow> string \<Rightarrow> rune list \<times> rune list \<times> string option"

definition HasBranches :: "git \<Rightarrow> string \<Rightarrow> bool \<times> error option" where
  "HasBranches RunStdBytes repoPath =
     (if repoPath = [] then (False, Some ErrRepositoryPathEmpty)
      else
        case RunStdBytes [''rev-list'', ''--max-count'', ''1'', ''--branches''] repoPath of
          (stdout, _, Some runErr) \<Rightarrow>
            (False, Some (GiteaError runErr ''failed to trigger rev-list command''))
        | (stdout, _, None) \<Rightarrow> (TrimSpace stdout = [], None))"


section \<open>internal/store/database/pipeline.go\<close>

subsection \<open>The pipeline and what lies outside the store\<close>

text \<open>
  \<open>types.Pipeline\<close>, field by field as \<open>pipelineColumns\<close> lists the columns. The Go
  fields \<open>ID\<close>, \<open>Seq\<close>, \<open>Updated\<close> and \<open>Version\<close> are \<open>pipeline_id\<close>,
  \<open>pipeline_seq\<close>, \<open>pipeline_updated\<close> and \<open>pipeline_version\<close>.
\<close>

record Pipeline =
  pipeline_id :: int64
  pipeline_description :: string
  pipeline_space_id :: int64
  pipeline_uid :: string
  pipeline_seq :: int64
  pipeline_repo_id :: int64
  pipeline_repo_type :: string
  pipeline_repo_name :: string
  pipeline_default_branch :: string
  pipeline_config_path :: string
  pipeline_created :: int64
  pipeline_updated :: int64
  pipeline_version :: int64

text \<open>\<open>new(types.Pipeline)\<close>: every field has its zero value.\<close>

definition new_Pipeline :: Pipeline where
  "new_Pipeline =
     \<lparr>pipeline_id = 0, pipeline_description = [], pipeline_space_id = 0, pipeline_uid = [],
      pipeline_seq = 0, pipeline_repo_id = 0, pipeline_repo_type = [], pipeline_repo_name = [],
      pipeline_default_branch = [], pipeline_config_path = [], pipeline_created = 0,
      pipeline_updated = 0, pipeline_version = 0\<rparr>"

text \<open>
  The store reaches the outside world through the clock and the database handle. Their
  behaviour is a parameter: a \<open>backend\<close> over a state \<open>'s\<close> of its own, which other
  writers may change between two calls of the store.
  \<^item> \<open>UnixMilliNow\<close> is \<open>time.Now().UnixMilli()\<close>;
  \<^item> \<open>BindNamed\<close> binds \<open>pipelineUpdateStmt\<close> to a struct, and may fail;
  \<^item> \<open>ExecContext\<close> executes the bound \<open>pipelineUpdateStmt\<close>: it fails, or gives a result
    whose \<open>RowsAffected\<close> fails or is a number of rows;
  \<^item> \<open>GetContext\<close> runs \<open>findQueryStmt\<close> for an id: it fails or scans a row.
\<close>

record 's backend =
  UnixMilliNow :: "'s \<Rightarrow> int64 \<times> 's"
  BindNamed :: "Pipeline \<Rightarrow> sqlerr option"
  ExecContext :: "Pipeline \<Rightarrow> 's \<Rightarrow> (sqlerr + (sqlerr + nat)) \<times> 's"
  GetContext :: "int64 \<Rightarrow> 's \<Rightarrow> (sqlerr + Pipeline) \<times> 's"

text \<open>
  The Go structs live in a heap: a \<open>*types.Pipeline\<close> is an index into \<open>heap\<close>, and
  allocating appends. \<open>trace\<close> records every statement sent to the database with what
  came back, in order; the code does not read it.
\<close>

datatype event =
    Exec Pipeline "sqlerr + (sqlerr + nat)"
  | Get int64 "sqlerr + Pipeline"

record 's state =
  heap :: "Pipeline list"
  trace :: "event list"
  db :: "'s"

subsection \<open>Find and Update\<close>

definition pipelineStore_Find :: "'s backend \<Rightarrow> int64 \<Rightarrow> 's state \<Rightarrow> (error + nat) \<times> 's state" where
  "pipelineStore_Find B ident \<sigma> =
     (let dst = length (heap \<sigma>);
          \<sigma>1 = \<sigma>\<lparr>heap := heap \<sigma> @ [new_Pipeline]\<rparr>;
          (r, d) = GetContext B ident (db \<sigma>1);
          \<sigma>2 = \<sigma>1\<lparr>trace := trace \<sigma>1 @ [Get ident r], db := d\<rparr>
      in case r of
           Inl err \<Rightarrow> (Inl (SQLError err ''Failed to find pipeline''), \<sigma>2)
         | Inr row \<Rightarrow> (Inr dst, \<sigma>2\<lparr>heap := (heap \<sigma>2)[dst := row]\<rparr>))"

definition pipelineStore_Update :: "'s backend \<Rightarrow> nat \<Rightarrow> 's state \<Rightarrow> error option \<times> 's state" where
  "pipelineStore_Update B p \<sigma> =
     (let (updatedAt, d1) = UnixMilliNow B (db \<sigma>);
          pipeline = heap \<sigma> ! p;
          pipeline = pipeline\<lparr>pipeline_version := pipeline_version pipeline + 1\<rparr>;
          pipeline = pipeline\<lparr>pipeline_updated := updatedAt\<rparr>;
          \<sigma>1 = \<sigma>\<lparr>db := d1\<rparr>
      in case BindNamed B pipeline of
           Some err \<Rightarrow> (Some (SQLError err ''Failed to bind pipeline object''), \<sigma>1)
         | None \<Rightarrow>
             (let (r, d2) = ExecContext B pipeline d1;
                  \<sigma>2 = \<sigma>1\<lparr>trace := trace \<sigma>1 @ [Exec pipeline r], db := d2\<rparr>
              in case r of
                   Inl err \<Rightarrow> (Some (SQLError err ''Failed to update pipeline''), \<sigma>2)
                 | Inr (Inl err) \<Rightarrow>
                     (Some (SQLError err ''Failed to get number of updated rows''), \<sigma>2)
                 | Inr (Inr count) \<Rightarrow>
                     if count = 0 then (Some ErrVersionConflict, \<sigma>2)
                     else (None, \<sigma>2\<lparr>heap := (heap \<sigma>2)
                             [p := (heap \<sigma>2 ! p)\<lparr>pipeline_updated := pipeline_updated pipeline,
                                                  pipeline_version := pipeline_version pipeline\<rparr>]\<rparr>)))"

subsection \<open>The retry loops\<close>

text \<open>
  Both loops are \<open>for { ... }\<close> with no bound: the first argument counts the iterations
  still allowed, and \<open>None\<close> says that they were used up before the loop returned. A
  result is Go's pair of a pointer (or nil) and an error (or nil).

  \<open>mutateFn\<close> receives a pointer to the copy and returns an error or nil; it is a function
  from the struct it is given to the struct it leaves and its error.
\<close>

type_synonym mutateFn = "Pipeline \<Rightarrow> Pipeline \<times> error option"

fun pipelineStore_UpdateOptLock ::
  "nat \<Rightarrow> 's backend \<Rightarrow> nat \<Rightarrow> mutateFn \<Rightarrow> 's state \<Rightarrow> ((nat option \<times> error option) \<times> 's state) option"
where
  "pipelineStore_UpdateOptLock 0 B pipeline mutateFn \<sigma> = None"
| "pipelineStore_UpdateOptLock (Suc n) B pipeline mutateFn \<sigma> =
     (let dup = length (heap \<sigma>);
          \<sigma>1 = \<sigma>\<lparr>heap := heap \<sigma> @ [heap \<sigma> ! pipeline]\<rparr>;
          (d, err) = mutateFn (heap \<sigma>1 ! dup);
          \<sigma>2 = \<sigma>1\<lparr>heap := (heap \<sigma>1)[dup := d]\<rparr>
      in case err of
           Some e \<Rightarrow> Some ((None, Some e), \<sigma>2)
         | None \<Rightarrow>
             (case pipelineStore_Update B dup \<sigma>2 of
                (None, \<sigma>3) \<Rightarrow> Some ((Some dup, None), \<sigma>3)
              | (Some e, \<sigma>3) \<Rightarrow>
                  if \<not> errors_Is e ErrVersionConflict then Some ((None, Some e), \<sigma>3)
                  else
                    (case pipelineStore_Find B (pipeline_id (heap \<sigma>3 ! pipeline)) \<sigma>3 of
                       (Inl e', \<sigma>4) \<Rightarrow> Some ((None, Some e'), \<sigma>4)
                     | (Inr fresh, \<sigma>4) \<Rightarrow> pipelineStore_UpdateOptLock n B fresh mutateFn \<sigma>4)))"

definition could_not_increment :: string where
  "could_not_increment = ''could not increment pipeline sequence number''"

fun pipelineStore_IncrementSeqNum ::
  "nat \<Rightarrow> 's backend \<Rightarrow> nat \<Rightarrow> 's state \<Rightarrow> ((nat option \<times> error option) \<times> 's state) option"
where
  "pipelineStore_IncrementSeqNum 0 B pipeline \<sigma> = None"
| "pipelineStore_IncrementSeqNum (Suc n) B pipeline \<sigma> =
     (let \<sigma>1 = \<sigma>\<lparr>heap := (heap \<sigma>)
                 [pipeline := (heap \<sigma> ! pipeline)\<lparr>pipeline_seq := pipeline_seq (heap \<sigma> ! pipeline) + 1\<rparr>]\<rparr>
      in case pipelineStore_Update B pipeline \<sigma>1 of
           (None, \<sigma>2) \<Rightarrow> Some ((Some pipeline, None), \<sigma>2)
         | (Some e, \<sigma>2) \<Rightarrow>
             if \<not> errors_Is e ErrVersionConflict
             then Some ((Some pipeline, Some (Wrapped e could_not_increment)), \<sigma>2)
             else
               (case pipelineStore_Find B (pipeline_id (heap \<sigma>2 ! pipeline)) \<sigma>2 of
                  (Inl e', \<sigma>3) \<Rightarrow> Some ((None, Some (Wrapped e' could_not_increment)), \<sigma>3)
                | (Inr fresh, \<sigma>3) \<Rightarrow> pipelineStore_IncrementSeqNum n B fresh \<sigma>3))"

text \<open>The mutation that \<open>IncrementSeqNum\<close> performs, as a \<open>mutateFn\<close>.\<close>

definition incrementSeq :: mutateFn where
  "incrementSeq p = (p\<lparr>pipeline_seq := pipeline_seq p + 1\<rparr>, None)"

subsection \<open>A database of pipeline rows\<close>

text \<open>
  The two statements of the store over a table of rows. \<open>pipelineUpdateStmt\<close> bound to
  \<open>q\<close> sets seven columns of every row \<open>WHERE pipeline_id = :pipeline_id AND
  pipeline_version = :pipeline_version - 1\<close> and reports how many rows that were;
  \<open>findQueryStmt\<close> gives the first row \<open>WHERE pipeline_id = $1\<close>, or \<open>sql.ErrNoRows\<close>.
\<close>

definition update_where :: "Pipeline \<Rightarrow> Pipeline \<Rightarrow> bool" where
  "update_where q r =
     (pipeline_id r = pipeline_id q \<and> pipeline_version r = pipeline_version q - 1)"

definition update_set :: "Pipeline \<Rightarrow> Pipeline \<Rightarrow> Pipeline" where
  "update_set q r =
     r\<lparr>pipeline_description := pipeline_description q,
       pipeline_uid := pipeline_uid q,
       pipeline_seq := pipeline_seq q,
       pipeline_default_branch := pipeline_default_branch q,
       pipeline_config_path := pipeline_config_path q,
       pipeline_updated := pipeline_updated q,
       pipeline_version := pipeline_version q\<rparr>"

definition pipelineUpdateStmt :: "Pipeline \<Rightarrow> Pipeline list \<Rightarrow> nat \<times> Pipeline list" where
  "pipelineUpdateStmt q rows =
     (length (filter (update_where q) rows),
      map (\<lambda>r. if update_where q r then update_set q r else r) rows)"

definition findQueryStmt :: "int64 \<Rightarrow> Pipeline list \<Rightarrow> sqlerr + Pipeline" where
  "findQueryStmt ident rows =
     (case filter (\<lambda>r. pipeline_id r = ident) rows of [] \<Rightarrow> Inl ErrNoRows | r # _ \<Rightarrow> Inr r)"

text \<open>
  \<open>tabledb\<close> is the backend of a single connection to such a table: the clock reads
  \<open>wallclock\<close>, and while \<open>outage\<close> holds an error every statement fails with it and
  changes nothing.
\<close>

record table_state =
  pipelines :: "Pipeline list"
  wallclock :: int64
  outage :: "sqlerr option"

definition tabledb :: "table_state backend" where
  "tabledb =
     \<lparr>UnixMilliNow = (\<lambda>s. (wallclock s, s)),
      BindNamed = (\<lambda>q. None),
      ExecContext = (\<lambda>q s.
        case outage s of
          Some e \<Rightarrow> (Inl e, s)
        | None \<Rightarrow>
            (let (count, rows) = pipelineUpdateStmt q (pipelines s)
             in (Inr (Inr count), s\<lparr>pipelines := rows\<rparr>))),
      GetContext = (\<lambda>ident s.
        case outage s of
          Some e \<Rightarrow> (Inl e, s)
        | None \<Rightarrow> (findQueryStmt ident (pipelines s), s))\<rparr>"


section \<open>internal/store/database/repo.go\<close>

subsection \<open>strconv.ParseInt\<close>

text \<open>
  \<open>strconv.ParseInt(s, 10, 64)\<close> of the Go library: an optional sign, then
  \<open>strconv.ParseUint\<close> on the rest, which scans the bytes from the left and stops with a
  syntax error at the first byte that is not a decimal digit and with a range error as soon
  as the value leaves 64 bits; then the range check of the signed result. The unsigned
  value is a \<open>nat\<close>, with the overflow tests of the library written out.
\<close>

datatype NumError = ErrSyntax | ErrRange

definition is_digit :: "char \<Rightarrow> bool" where
  "is_digit c = (48 \<le> (of_char c :: nat) \<and> (of_char c :: nat) \<le> 57)"

definition digit :: "char \<Rightarrow> nat" where
  "digit c = of_char c - 48"

definition maxUint64 :: nat where
  "maxUint64 = 2 ^ 64 - 1"

fun ParseUint_loop :: "nat \<Rightarrow> string \<Rightarrow> NumError + nat" where
  "ParseUint_loop n [] = Inr n"
| "ParseUint_loop n (c # cs) =
     (if \<not> is_digit c then Inl ErrSyntax
      else if n \<ge> maxUint64 div 10 + 1 then Inl ErrRange
      else if n * 10 + digit c > maxUint64 then Inl ErrRange
      else ParseUint_loop (n * 10 + digit c) cs)"

definition ParseUint :: "string \<Rightarrow> NumError + nat" where
  "ParseUint s = (if s = [] then Inl ErrSyntax else ParseUint_loop 0 s)"

definition ParseInt :: "string \<Rightarrow> NumError + int64" where
  "ParseInt s =
     (if s = [] then Inl ErrSyntax
      else
        let neg = (hd s = CHR ''-'');
            s' = (if hd s = CHR ''+'' \<or> hd s = CHR ''-'' then tl s else s)
        in case ParseUint s' of
             Inl ErrSyntax \<Rightarrow> Inl ErrSyntax
           | Inl ErrRange \<Rightarrow> Inl ErrRange
           | Inr un \<Rightarrow>
               if \<not> neg \<and> un \<ge> 2 ^ 63 then Inl ErrRange
               else if neg \<and> un > 2 ^ 63 then Inl ErrRange
               else Inr (if neg then - word_of_nat un else word_of_nat un))"

subsection \<open>Rows, tables and the database\<close>

text \<open>
  \<open>enum.PathTargetType\<close>, \<open>types.Path\<close> and \<open>types.Repository\<close> are not among the
  sources; the records follow section 3 of the specification and the columns that
  \<open>repoSelectBase\<close> and \<open>repoInsert\<close> name. A row of the table \<open>repositories\<close> has no
  column \<open>repo_path\<close>: the select statements fill that field from the repository's
  primary path, and a stored row keeps it empty.
\<close>

datatype PathTargetType = PathTargetTypeRepo | PathTargetTypeSpace

record Path =
  path_id :: int64
  path_targetType :: PathTargetType
  path_targetId :: int64
  path_isAlias :: bool
  path_value :: string
  path_valueUnique :: string
  path_createdBy :: int64
  path_created :: int64
  path_updated :: int64

record Repository =
  repo_id :: int64
  repo_parentId :: int64
  repo_uid :: string
  repo_path :: string
  repo_description :: string
  repo_isPublic :: bool
  repo_createdBy :: int64
  repo_created :: int64
  repo_updated :: int64
  repo_gitUid :: string
  repo_defaultBranch :: string
  repo_forkId :: int64
  repo_numForks :: int64
  repo_numPulls :: int64
  repo_numClosedPulls :: int64
  repo_numOpenPulls :: int64

record tables =
  repositories :: "Repository list"
  paths :: "Path list"

text \<open>
  The database as one connection sees it. \<open>committed\<close> holds the committed rows. Every
  call of the driver is written to \<open>log\<close> and takes the next entry of \<open>faults\<close>: an
  error there makes the call fail with no effect, \<open>None\<close> (or no entry left) lets it
  proceed. \<open>next_repo_id\<close> and \<open>next_path_id\<close> are the identifiers the engine hands out
  next, and \<open>clock\<close> gives the successive readings of \<open>time.Now().UnixMilli()\<close>.
\<close>

datatype stmt =
    BeginTx
  | CommitTx
  | BindRepo
  | RepoInsert Repository
  | RepoSelectByID int64
  | RepoSelectByPathUnique string
  | RepoUpdateUIDAndParentID string int64 int64
  | PathSelectPrimary PathTargetType int64
  | PathInsert Path
  | PathReplace Path bool

record world =
  committed :: tables
  faults :: "sqlerr option list"
  log :: "stmt list"
  next_repo_id :: int64
  next_path_id :: int64
  clock :: "nat \<Rightarrow> int64"
  ticks :: nat

definition driver_call :: "stmt \<Rightarrow> world \<Rightarrow> sqlerr option \<times> world" where
  "driver_call q w =
     (case faults w of
        [] \<Rightarrow> (None, w\<lparr>log := log w @ [q]\<rparr>)
      | f # fs \<Rightarrow> (f, w\<lparr>faults := fs, log := log w @ [q]\<rparr>))"

definition UnixMilli :: "world \<Rightarrow> int64 \<times> world" where
  "UnixMilli w = (clock w (ticks w), w\<lparr>ticks := ticks w + 1\<rparr>)"

text \<open>
  A transaction works on a copy of the tables: \<open>BeginTxx\<close> takes the copy, \<open>Commit\<close>
  makes it the committed state, and the deferred \<open>tx.Rollback()\<close> of a call that returns
  without a successful commit drops the copy (its own result is ignored by the code).
\<close>

definition BeginTxx :: "world \<Rightarrow> (sqlerr + tables) \<times> world" where
  "BeginTxx w =
     (case driver_call BeginTx w of
        (Some err, w') \<Rightarrow> (Inl err, w')
      | (None, w') \<Rightarrow> (Inr (committed w'), w'))"

definition Commit :: "tables \<Rightarrow> world \<Rightarrow> sqlerr option \<times> world" where
  "Commit tx w =
     (case driver_call CommitTx w of
        (Some err, w') \<Rightarrow> (Some err, w')
      | (None, w') \<Rightarrow> (None, w'\<lparr>committed := tx\<rparr>))"

subsection \<open>The statements of the repository store\<close>

text \<open>
  \<open>repoSelectByID\<close> joins each repository with its primary path; \<open>repoSelectByPathUnique\<close>
  starts from the paths whose \<open>path_valueUnique\<close> is the argument, joins the repository
  they name and then that repository's primary path. \<open>GetContext\<close> scans the first row
  of the result and fails with \<open>sql.ErrNoRows\<close> when there is none.
\<close>

definition is_primary_of :: "Repository \<Rightarrow> Path \<Rightarrow> bool" where
  "is_primary_of r p =
     (repo_id r = path_targetId p \<and> path_targetType p = PathTargetTypeRepo \<and> \<not> path_isAlias p)"

definition repoSelectByID :: "int64 \<Rightarrow> tables \<Rightarrow> Repository list" where
  "repoSelectByID ident T =
     [r\<lparr>repo_path := path_value p\<rparr>.
        r \<leftarrow> repositories T, p \<leftarrow> paths T, is_primary_of r p, repo_id r = ident]"

definition repoSelectByPathUnique :: "string \<Rightarrow> tables \<Rightarrow> Repository list" where
  "repoSelectByPathUnique pathUnique T =
     [r\<lparr>repo_path := path_value p\<rparr>.
        p1 \<leftarrow> paths T, r \<leftarrow> repositories T,
        repo_id r = path_targetId p1 \<and> path_targetType p1 = PathTargetTypeRepo
          \<and> path_valueUnique p1 = pathUnique,
        p \<leftarrow> paths T, is_primary_of r p]"

definition repoUpdateUIDAndParentID :: "string \<Rightarrow> int64 \<Rightarrow> int64 \<Rightarrow> tables \<Rightarrow> tables" where
  "repoUpdateUIDAndParentID uid parentId ident T =
     T\<lparr>repositories :=
         map (\<lambda>r. if repo_id r = ident then r\<lparr>repo_uid := uid, repo_parentId := parentId\<rparr> else r)
           (repositories T)\<rparr>"

definition GetContext_repo :: "stmt \<Rightarrow> Repository list \<Rightarrow> string \<Rightarrow> world \<Rightarrow> (error + Repository) \<times> world" where
  "GetContext_repo q result msg w =
     (case driver_call q w of
        (Some err, w') \<Rightarrow> (Inl (SQLError err msg), w')
      | (None, w') \<Rightarrow>
          (case result of
             [] \<Rightarrow> (Inl (SQLError ErrNoRows msg), w')
           | r # _ \<Rightarrow> (Inr r, w')))"

subsection \<open>The path helpers\<close>

text \<open>
  Modelled from the spec: \<open>paths.Concatinate\<close> is not among the sources. Section 4.1
  gives the new path as the parent's value, \<open>"/"\<close>, and the segment.
\<close>

definition Concatinate :: "string \<Rightarrow> string \<Rightarrow> string" where
  "Concatinate path1 path2 = path1 @ ''/'' @ path2"

text \<open>
  Modelled from the spec: \<open>FindPathTx\<close> is not among the sources. It is \<open>FindPrimary\<close> of
  section 4.1: the primary (non-alias) path of a target, \<open>NotFound\<close> if there is none. It
  reads inside the transaction.
\<close>

definition pathSelectPrimary :: "PathTargetType \<Rightarrow> int64 \<Rightarrow> tables \<Rightarrow> Path list" where
  "pathSelectPrimary targetType targetId T =
     filter (\<lambda>p. path_targetType p = targetType \<and> path_targetId p = targetId \<and> \<not> path_isAlias p)
       (paths T)"

definition FindPathTx :: "tables \<Rightarrow> PathTargetType \<Rightarrow> int64 \<Rightarrow> world \<Rightarrow> (error + Path) \<times> world" where
  "FindPathTx tx targetType targetId w =
     (case driver_call (PathSelectPrimary targetType targetId) w of
        (Some err, w') \<Rightarrow> (Inl (SQLError err ''Failed to find path''), w')
      | (None, w') \<Rightarrow>
          (case pathSelectPrimary targetType targetId tx of
             [] \<Rightarrow> (Inl ErrNotFound, w')
           | p # _ \<Rightarrow> (Inr p, w')))"

text \<open>
  Modelled from the spec: \<open>CreatePathTx\<close> is not among the sources. It is
  \<open>CreatePrimary\<close> of section 4.1 for the path struct it is given: it fails with
  \<open>InvalidPath\<close> if the value has an empty segment (the specification names no reserved
  character), constructs the normalized form with the injected function, fails with
  \<open>DuplicatePath\<close> if a row with that \<open>valueUnique\<close> exists, and otherwise inserts the one
  row inside the transaction. The struct's value is left as it is.
\<close>

fun segments :: "string \<Rightarrow> string list" where
  "segments [] = [[]]"
| "segments (c # cs) =
     (if c = CHR ''/'' then [] # segments cs
      else (c # hd (segments cs)) # tl (segments cs))"

definition valid_path_value :: "string \<Rightarrow> bool" where
  "valid_path_value v = ([] \<notin> set (segments v))"

definition CreatePathTx ::
  "tables \<Rightarrow> Path \<Rightarrow> (string \<Rightarrow> error + string) \<Rightarrow> world \<Rightarrow> (error + tables) \<times> world"
where
  "CreatePathTx tx p transformation w =
     (if \<not> valid_path_value (path_value p) then (Inl ErrInvalidPath, w)
      else
        case transformation (path_value p) of
          Inl err \<Rightarrow> (Inl err, w)
        | Inr pathUnique \<Rightarrow>
            (let row = p\<lparr>path_id := next_path_id w, path_valueUnique := pathUnique\<rparr>
             in case driver_call (PathInsert row) w of
                  (Some err, w') \<Rightarrow> (Inl (SQLError err ''Insert query failed''), w')
                | (None, w') \<Rightarrow>
                    if pathUnique \<in> set (map path_valueUnique (paths tx))
                    then (Inl ErrDuplicatePath, w')
                    else (Inr (tx\<lparr>paths := paths tx @ [row]\<rparr>),
                          w'\<lparr>next_path_id := next_path_id w' + 1\<rparr>)))"

text \<open>
  \<open>ReplacePathTx\<close> is not among the sources either. No property below depends on what it
  does, so it is a parameter of \<open>Move\<close>: any function of the transaction, the new path,
  \<open>keepAsAlias\<close> and the normalization function that fails or gives the tables of the
  transaction after it.
\<close>

type_synonym replacePathTx =
  "tables \<Rightarrow> Path \<Rightarrow> bool \<Rightarrow> (string \<Rightarrow> error + string) \<Rightarrow> world \<Rightarrow> (error + tables) \<times> world"

subsection \<open>The store\<close>

record RepoStore =
  pathTransformation :: "string \<Rightarrow> error + string"

definition RepoStore_Find :: "RepoStore \<Rightarrow> int64 \<Rightarrow> world \<Rightarrow> (error + Repository) \<times> world" where
  "RepoStore_Find s ident w =
     GetContext_repo (RepoSelectByID ident) (repoSelectByID ident (committed w))
       ''Select query failed'' w"

definition quoted :: "string \<Rightarrow> string" where
  "quoted s = CHR 0x27 # s @ [CHR 0x27]"

definition RepoStore_FindByPath :: "RepoStore \<Rightarrow> string \<Rightarrow> world \<Rightarrow> (error + Repository) \<times> world" where
  "RepoStore_FindByPath s path w =
     (case pathTransformation s path of
        Inl err \<Rightarrow> (Inl (Wrapped err (''failed to transform path '' @ quoted path)), w)
      | Inr pathUnique \<Rightarrow>
          GetContext_repo (RepoSelectByPathUnique pathUnique)
            (repoSelectByPathUnique pathUnique (committed w)) ''Select query failed'' w)"

definition RepoStore_FindRepoFromRef :: "RepoStore \<Rightarrow> string \<Rightarrow> world \<Rightarrow> (error + Repository) \<times> world" where
  "RepoStore_FindRepoFromRef s repoRef w =
     (case ParseInt repoRef of
        Inr ident \<Rightarrow> RepoStore_Find s ident w
      | Inl err \<Rightarrow> RepoStore_FindByPath s repoRef w)"

text \<open>
  \<open>Create\<close> takes a pointer to the repository and returns an error or nil; the model
  returns the error with the struct as the call leaves it (\<open>Scan(&repo.ID)\<close> and
  \<open>repo.Path = p.Value\<close> write to it).
\<close>

definition RepoStore_Create :: "RepoStore \<Rightarrow> Repository \<Rightarrow> world \<Rightarrow> (error option \<times> Repository) \<times> world" where
  "RepoStore_Create s repo w =
     (case BeginTxx w of
        (Inl err, w1) \<Rightarrow> ((Some (SQLError err ''Failed to start a new transaction''), repo), w1)
      | (Inr tx, w1) \<Rightarrow>
      (case driver_call BindRepo w1 of
        (Some err, w2) \<Rightarrow> ((Some (SQLError err ''Failed to bind repo object''), repo), w2)
      | (None, w2) \<Rightarrow>
      (case driver_call (RepoInsert repo) w2 of
        (Some err, w3) \<Rightarrow> ((Some (SQLError err ''Insert query failed''), repo), w3)
      | (None, w3) \<Rightarrow>
      (let repo = repo\<lparr>repo_id := next_repo_id w3\<rparr>;
           tx = tx\<lparr>repositories := repositories tx @ [repo\<lparr>repo_path := []\<rparr>]\<rparr>;
           w3 = w3\<lparr>next_repo_id := next_repo_id w3 + 1\<rparr>
       in case FindPathTx tx PathTargetTypeSpace (repo_parentId repo) w3 of
        (Inl err, w4) \<Rightarrow> ((Some (Wrapped err ''Failed to find path of parent space''), repo), w4)
      | (Inr parentPath, w4) \<Rightarrow>
      (let path = Concatinate (path_value parentPath) (repo_uid repo);
           p = \<lparr>path_id = 0, path_targetType = PathTargetTypeRepo, path_targetId = repo_id repo,
                path_isAlias = False, path_value = path, path_valueUnique = [],
                path_createdBy = repo_createdBy repo, path_created = repo_created repo,
                path_updated = repo_updated repo\<rparr>
       in case CreatePathTx tx p (pathTransformation s) w4 of
        (Inl err, w5) \<Rightarrow> ((Some (Wrapped err ''Failed to create primary path of repo''), repo), w5)
      | (Inr tx, w5) \<Rightarrow>
      (case Commit tx w5 of
        (Some err, w6) \<Rightarrow> ((Some (SQLError err ''Failed to commit transaction''), repo), w6)
      | (None, w6) \<Rightarrow> ((None, repo\<lparr>repo_path := path_value p\<rparr>), w6)))))))"

definition RepoStore_Move ::
  "replacePathTx \<Rightarrow> RepoStore \<Rightarrow> int64 \<Rightarrow> int64 \<Rightarrow> int64 \<Rightarrow> string \<Rightarrow> bool \<Rightarrow> world
     \<Rightarrow> (error + Repository) \<times> world"
where
  "RepoStore_Move ReplacePathTx s principalID repoID newParentID newName keepAsAlias w =
     (case BeginTxx w of
        (Inl err, w1) \<Rightarrow> (Inl (SQLError err ''Failed to start a new transaction''), w1)
      | (Inr tx, w1) \<Rightarrow>
      (case FindPathTx tx PathTargetTypeRepo repoID w1 of
        (Inl err, w2) \<Rightarrow> (Inl (Wrapped err ''Failed to find the primary path of the repo''), w2)
      | (Inr currentPath, w2) \<Rightarrow>
      (case FindPathTx tx PathTargetTypeSpace newParentID w2 of
        (Inl err, w3) \<Rightarrow> (Inl (Wrapped err ''Failed to find the primary path of the new space''), w3)
      | (Inr spacePath, w3) \<Rightarrow>
      (let newPath = Concatinate (path_value spacePath) newName
       in if newPath = path_value currentPath then (Inl ErrNoChangeInRequestedMove, w3)
       else
         let (created, w4) = UnixMilli w3;
             (updated, w5) = UnixMilli w4;
             p = \<lparr>path_id = 0, path_targetType = PathTargetTypeRepo, path_targetId = repoID,
                  path_isAlias = False, path_value = newPath, path_valueUnique = [],
                  path_createdBy = principalID, path_created = created, path_updated = updated\<rparr>
         in case ReplacePathTx tx p keepAsAlias (pathTransformation s) w5 of
              (Inl err, w6) \<Rightarrow> (Inl (Wrapped err ''Failed to update the primary path of the repo''), w6)
            | (Inr tx, w6) \<Rightarrow>
         (case driver_call (RepoUpdateUIDAndParentID newName newParentID repoID) w6 of
              (Some err, w7) \<Rightarrow>
                (Inl (SQLError err ''Query for renaming and updating the space id failed''), w7)
            | (None, w7) \<Rightarrow>
         (let tx = repoUpdateUIDAndParentID newName newParentID repoID tx
          in case GetContext_repo (RepoSelectByID repoID) (repoSelectByID repoID tx)
                    ''Select query to get the repo's latest state failed'' w7 of
              (Inl err, w8) \<Rightarrow> (Inl err, w8)
            | (Inr dst, w8) \<Rightarrow>
         (case Commit tx w8 of
              (Some err, w9) \<Rightarrow> (Inl (SQLError err ''Failed to commit transaction''), w9)
            | (None, w9) \<Rightarrow> (Inr dst, w9))))))))"


subsection \<open>Reading a trace\<close>

text \<open>
  What the retry protocol of \<open>UpdateOptLock\<close> allows a trace to be, started on the
  struct \<open>cur\<close>. \<open>attempt\<close>: the bound struct \<open>q\<close> is \<open>cur\<close> after a mutation that
  succeeded, with the version incremented and some time stamp. \<open>retry_protocol\<close>: every
  statement is such an attempt on the current struct; something follows an attempt only if
  it changed no row, and then it is a read of the current struct's id; something follows
  that read only if it gave a row, which is then the current struct.
\<close>

definition attempt :: "mutateFn \<Rightarrow> Pipeline \<Rightarrow> Pipeline \<Rightarrow> bool" where
  "attempt mutateFn cur q =
     (snd (mutateFn cur) = None \<and>
      q = (fst (mutateFn cur))\<lparr>pipeline_version := pipeline_version (fst (mutateFn cur)) + 1,
                               pipeline_updated := pipeline_updated q\<rparr>)"

fun retry_protocol :: "mutateFn \<Rightarrow> Pipeline \<Rightarrow> event list \<Rightarrow> bool" where
  "retry_protocol mutateFn cur [] = True"
| "retry_protocol mutateFn cur [Exec q r] = attempt mutateFn cur q"
| "retry_protocol mutateFn cur (Exec q r # Get i g # rest) =
     (attempt mutateFn cur q \<and> r = Inr (Inr 0) \<and> i = pipeline_id cur \<and>
      (case g of Inl x \<Rightarrow> rest = [] | Inr row \<Rightarrow> retry_protocol mutateFn row rest))"
| "retry_protocol mutateFn cur (e # rest) = False"

text \<open>
  \<open>current\<close> is the struct the loop works on after a trace: the last row read, or the
  one it started with. \<open>reported\<close> is the error that a failed statement is turned into.
\<close>

fun current :: "Pipeline \<Rightarrow> event list \<Rightarrow> Pipeline" where
  "current cur [] = cur"
| "current cur (Get i (Inr row) # rest) = current row rest"
| "current cur (e # rest) = current cur rest"

fun reported :: "event \<Rightarrow> error option" where
  "reported (Exec q (Inl x)) = Some (SQLError x ''Failed to update pipeline'')"
| "reported (Exec q (Inr (Inl x))) = Some (SQLError x ''Failed to get number of updated rows'')"
| "reported (Exec q (Inr (Inr n))) = None"
| "reported (Get i (Inl x)) = Some (SQLError x ''Failed to find pipeline'')"
| "reported (Get i (Inr row)) = None"

text \<open>
  \<open>contended n\<close>: started on the struct \<open>cur\<close> with the database in state \<open>d\<close>, each of
  the next \<open>n\<close> iterations of \<open>UpdateOptLock\<close> mutates without error, binds, gets "no row
  changed" from the update and a row from the read that follows. These are the iterations
  after which the loop goes round again.
\<close>

fun contended :: "nat \<Rightarrow> 's backend \<Rightarrow> Pipeline \<Rightarrow> mutateFn \<Rightarrow> 's \<Rightarrow> bool" where
  "contended 0 B cur mutateFn d = True"
| "contended (Suc n) B cur mutateFn d =
     (let (m, me) = mutateFn cur;
          (u, d1) = UnixMilliNow B d;
          q = m\<lparr>pipeline_version := pipeline_version m + 1, pipeline_updated := u\<rparr>;
          (r, d2) = ExecContext B q d1;
          (g, d3) = GetContext B (pipeline_id cur) d2
      in me = None \<and> BindNamed B q = None \<and> r = Inr (Inr 0) \<and>
         (case g of Inl x \<Rightarrow> False | Inr row \<Rightarrow> contended n B row mutateFn d3))"


subsection \<open>Reading a reference and the driver's faults\<close>

text \<open>
  A string of decimal digits and the number it denotes, to say what \<open>ParseInt\<close> accepts.
  \<open>signed_decimal\<close> reads an optional sign and then digits.
\<close>

definition digits_only :: "string \<Rightarrow> bool" where
  "digits_only s = (s \<noteq> [] \<and> list_all is_digit s)"

definition decimal :: "string \<Rightarrow> nat" where
  "decimal s = foldl (\<lambda>n c. n * 10 + digit c) 0 s"

definition signed_decimal :: "string \<Rightarrow> int option" where
  "signed_decimal s =
     (case s of
        [] \<Rightarrow> None
      | c # cs \<Rightarrow>
          if c = CHR ''+'' then (if digits_only cs then Some (int (decimal cs)) else None)
          else if c = CHR ''-'' then (if digits_only cs then Some (- int (decimal cs)) else None)
          else if digits_only s then Some (int (decimal s)) else None)"

text \<open>\<open>unfaulted k w\<close>: the driver lets the next \<open>k\<close> calls proceed.\<close>

definition unfaulted :: "nat \<Rightarrow> world \<Rightarrow> bool" where
  "unfaulted k w = list_all (\<lambda>f. f = None) (take k (faults w))"


section \<open>Example inputs\<close>

text \<open>Two runs of git: one prints a commit, the other prints nothing.\<close>

definition git_one_commit :: git where
  "git_one_commit args dir = ([52, 98, 56, 50, 53, 100, 99, 10], [], None)"

definition git_no_commit :: git where
  "git_no_commit args dir = ([], [], None)"

text \<open>
  A pipeline row with \<open>seq = 5\<close> at version 3; a caller that holds a copy of the row
  (\<open>s_fresh\<close>), a caller whose copy is one version behind (\<open>s_stale\<close>), and the same
  caller while the database is down (\<open>s_down\<close>).
\<close>

definition p0 :: Pipeline where
  "p0 = new_Pipeline\<lparr>pipeline_id := 7, pipeline_seq := 5, pipeline_version := 3\<rparr>"


definition s_stale :: "table_state state" where
  "s_stale = \<lparr>heap = [p0\<lparr>pipeline_seq := 4, pipeline_version := 2\<rparr>], trace = [],
              db = \<lparr>pipelines = [p0], wallclock = 1000, outage = None\<rparr>\<rparr>"

definition s_down :: "table_state state" where
  "s_down = \<lparr>heap = [p0], trace = [],
             db = \<lparr>pipelines = [p0], wallclock = 1000, outage = Some (DriverError ''connection refused'')\<rparr>\<rparr>"

text \<open>A mutation function that refuses every pipeline.\<close>

definition refuse :: mutateFn where
  "refuse p = (p, Some (OtherError ''refused''))"

text \<open>
  A store whose normalization lower-cases ASCII paths and rejects any other; a database
  with the space \<open>acme\<close>; the repository \<open>Repo1\<close> to create under it; and a database in
  which repository 42 has the primary path \<open>acme/Repo1\<close> and repository 43 has the
  primary path \<open>acme/Repo2\<close> and an alias path made of the digits of \<open>2^63\<close>.
\<close>

definition lower :: "string \<Rightarrow> error + string" where
  "lower s = (if isASCII s then Inr (map lower_byte s) else Inl (OtherError ''not ascii''))"

definition store0 :: RepoStore where
  "store0 = \<lparr>pathTransformation = lower\<rparr>"

definition space_path :: Path where
  "space_path = \<lparr>path_id = 1, path_targetType = PathTargetTypeSpace, path_targetId = 10,
     path_isAlias = False, path_value = ''acme'', path_valueUnique = ''acme'',
     path_createdBy = 1, path_created = 5, path_updated = 5\<rparr>"

definition repo1 :: Repository where
  "repo1 = \<lparr>repo_id = 0, repo_parentId = 10, repo_uid = ''Repo1'', repo_path = [],
     repo_description = ''first'', repo_isPublic = True, repo_createdBy = 1, repo_created = 7,
     repo_updated = 7, repo_gitUid = ''g1'', repo_defaultBranch = ''main'', repo_forkId = 0,
     repo_numForks = 0, repo_numPulls = 0, repo_numClosedPulls = 0, repo_numOpenPulls = 0\<rparr>"

definition w0 :: world where
  "w0 = \<lparr>committed = \<lparr>repositories = [], paths = [space_path]\<rparr>, faults = [], log = [],
          next_repo_id = 42, next_path_id = 2, clock = (\<lambda>n. 1000 + of_nat n), ticks = 0\<rparr>"

definition repo1_path :: Path where
  "repo1_path = \<lparr>path_id = 2, path_targetType = PathTargetTypeRepo, path_targetId = 42,
     path_isAlias = False, path_value = ''acme/Repo1'', path_valueUnique = ''acme/repo1'',
     path_createdBy = 1, path_created = 7, path_updated = 7\<rparr>"

definition repo2_path :: Path where
  "repo2_path = \<lparr>path_id = 3, path_targetType = PathTargetTypeRepo, path_targetId = 43,
     path_isAlias = False, path_value = ''acme/Repo2'', path_valueUnique = ''acme/repo2'',
     path_createdBy = 1, path_created = 8, path_updated = 8\<rparr>"

definition digits_path :: Path where
  "digits_path = \<lparr>path_id = 4, path_targetType = PathTargetTypeRepo, path_targetId = 43,
     path_isAlias = True, path_value = ''9223372036854775808'',
     path_valueUnique = ''9223372036854775808'',
     path_createdBy = 1, path_created = 9, path_updated = 9\<rparr>"

definition w1 :: world where
  "w1 = \<lparr>committed =
            \<lparr>repositories = [repo1\<lparr>repo_id := 42\<rparr>, repo1\<lparr>repo_id := 43, repo_uid := ''Repo2''\<rparr>],
             paths = [space_path, repo1_path, repo2_path, digits_path]\<rparr>,
          faults = [], log = [],
          next_repo_id = 44, next_path_id = 5, clock = (\<lambda>n. 1000 + of_nat n), ticks = 0\<rparr>"

text \<open>A stand-in for \<open>ReplacePathTx\<close> that changes nothing.\<close>

definition replace_nothing :: replacePathTx where
  "replace_nothing tx p keepAsAlias transformation w = (Inr tx, w)"


section \<open>Properties of Order\<close>


lemma isASCII_lits: "isASCII ''asc''" "isASCII ''desc''"
  by (simp_all add: isASCII_def)

lemma lower_lits: "map lower_byte ''asc'' = ''asc''" "map lower_byte ''desc'' = ''desc''"
  by code_simp+

lemma ParseOrder_lits:
  "ParseOrder U ''asc'' = OrderAsc" "ParseOrder U ''desc'' = OrderDesc"
  by (simp_all only: ParseOrder_def ToLower_def isASCII_lits lower_lits Let_def if_True) simp_all

lemma ParseOrder_ASCII:
  "isASCII s \<Longrightarrow> isASCII t \<Longrightarrow> map lower_byte s = map lower_byte t \<Longrightarrow> ParseOrder U s = ParseOrder U t"
  by (simp add: ParseOrder_def ToLower_def)

text \<open>
  C9. \<open>ParseOrder\<close> after \<open>String\<close> gives back \<open>OrderAsc\<close> and \<open>OrderDesc\<close>.
  \<open>OrderDefault.String()\<close> is \<open>"asc"\<close>, which parses to \<open>OrderAsc\<close> and not to
  \<open>OrderDefault\<close>; over all values of the type, the round trip holds exactly on
  \<open>OrderAsc\<close> and \<open>OrderDesc\<close>. \<open>ParseOrder\<close> does not see the case of letters: two
  ASCII strings that are equal after lower-casing parse to the same order.
\<close>

theorem ParseOrder_Order_String:
  "ParseOrder U (Order_String OrderAsc) = OrderAsc
   \<and> ParseOrder U (Order_String OrderDesc) = OrderDesc
   \<and> Order_String OrderDefault = ''asc''
   \<and> ParseOrder U (Order_String OrderDefault) = OrderAsc
   \<and> OrderAsc \<noteq> OrderDefault
   \<and> (\<forall>e. (ParseOrder U (Order_String e) = e) = (e = OrderAsc \<or> e = OrderDesc))
   \<and> (\<forall>s t. isASCII s \<and> isASCII t \<and> map lower_byte s = map lower_byte t
          \<longrightarrow> ParseOrder U s = ParseOrder U t)"
proof -
  have rt: "(ParseOrder U (Order_String e) = e) = (e = OrderAsc \<or> e = OrderDesc)" for e
    by (auto simp: Order_String_def ParseOrder_lits)
  show ?thesis
    using rt ParseOrder_ASCII [of _ _ U]
    by (simp add: Order_String_def ParseOrder_lits OrderAsc_def OrderDesc_def OrderDefault_def)
qed

theorem ParseOrder_Order_String_witness:
  "isASCII ''DeSC'' \<and> isASCII ''desc'' \<and> map lower_byte ''DeSC'' = map lower_byte ''desc''
   \<and> ParseOrder (\<lambda>s. s) ''DeSC'' = ParseOrder (\<lambda>s. s) ''desc''
   \<and> ParseOrder (\<lambda>s. s) ''DeSC'' = OrderDesc"
proof -
  have a: "isASCII ''DeSC''" "isASCII ''desc''" by (simp_all add: isASCII_def)
  have b: "map lower_byte ''DeSC'' = map lower_byte ''desc''" by code_simp
  from ParseOrder_Order_String [of "\<lambda>s. s"] a b
  have "ParseOrder (\<lambda>s. s) ''DeSC'' = ParseOrder (\<lambda>s. s) ''desc''" by blast
  moreover have "ParseOrder (\<lambda>s. s) ''desc'' = OrderDesc" by (rule ParseOrder_lits)
  ultimately show ?thesis using a b by simp
qed


section \<open>Properties of HasBranches\<close>

lemma dropWhile_all_Nil:
  assumes "\<forall>x \<in> set (dropWhile P xs). P x"
  shows "dropWhile P xs = []"
proof (cases "dropWhile P xs")
  case Nil
  then show ?thesis .
next
  case (Cons a as)
  then have "\<not> P a"
    using hd_dropWhile [of P xs] by auto
  with assms Cons show ?thesis by simp
qed

lemma TrimSpace_Nil_iff: "TrimSpace s = [] \<longleftrightarrow> list_all IsSpace s"
proof
  assume "TrimSpace s = []"
  then have "rev (dropWhile IsSpace (rev (dropWhile IsSpace s))) = []"
    unfolding TrimSpace_def .
  then have "dropWhile IsSpace (rev (dropWhile IsSpace s)) = []"
    by (rule rev_is_Nil_conv [THEN iffD1])
  then have "\<forall>x \<in> set (rev (dropWhile IsSpace s)). IsSpace x"
    by (rule dropWhile_eq_Nil_conv [THEN iffD1])
  then have "\<forall>x \<in> set (dropWhile IsSpace s). IsSpace x"
    unfolding set_rev .
  then have "dropWhile IsSpace s = []"
    by (rule dropWhile_all_Nil)
  then have "\<forall>x \<in> set s. IsSpace x"
    by (rule dropWhile_eq_Nil_conv [THEN iffD1])
  then show "list_all IsSpace s"
    unfolding list_all_iff .
next
  assume "list_all IsSpace s"
  then have "\<forall>x \<in> set s. IsSpace x"
    unfolding list_all_iff .
  then have "dropWhile IsSpace s = []"
    by (rule dropWhile_eq_Nil_conv [THEN iffD2])
  then show "TrimSpace s = []"
    unfolding TrimSpace_def by (simp del: dropWhile_eq_Nil_conv)
qed

text \<open>
  C10. For a non-empty \<open>repoPath\<close> on which the \<open>rev-list\<close> command succeeds,
  \<open>HasBranches\<close> returns no error and the boolean "the output is empty after
  \<open>TrimSpace\<close>", that is, every rune of the output is white space. So it answers true when
  git prints no commit, and false when it prints one: the opposite of what the comment
  above the function announces.
\<close>

theorem HasBranches_true_iff_blank_output:
  assumes "repoPath \<noteq> []"
    and "RunStdBytes [''rev-list'', ''--max-count'', ''1'', ''--branches''] repoPath = (stdout, stderr, None)"
  shows "HasBranches RunStdBytes repoPath = (TrimSpace stdout = [], None)
         \<and> (fst (HasBranches RunStdBytes repoPath) \<longleftrightarrow> list_all IsSpace stdout)"
  using assms by (simp add: HasBranches_def TrimSpace_Nil_iff)

theorem HasBranches_true_iff_blank_output_witness:
  "HasBranches git_one_commit ''/data/repo.git'' = (False, None)
   \<and> HasBranches git_no_commit ''/data/repo.git'' = (True, None)"
proof -
  have p: "''/data/repo.git'' \<noteq> []" by simp
  have 1: "git_one_commit [''rev-list'', ''--max-count'', ''1'', ''--branches''] ''/data/repo.git''
           = ([52, 98, 56, 50, 53, 100, 99, 10], [], None)"
    by (simp add: git_one_commit_def)
  have 2: "git_no_commit [''rev-list'', ''--max-count'', ''1'', ''--branches''] ''/data/repo.git''
           = ([], [], None)"
    by (simp add: git_no_commit_def)
  show ?thesis
    using HasBranches_true_iff_blank_output [of "''/data/repo.git''" git_one_commit, OF p 1]
      HasBranches_true_iff_blank_output [of "''/data/repo.git''" git_no_commit, OF p 2]
    by (simp add: TrimSpace_def IsSpace_def)
qed


section \<open>Properties of the pipeline store\<close>

subsection \<open>Update\<close>








subsection \<open>UpdateOptLock\<close>


lemma updated_version_commute:
  "P\<lparr>pipeline_updated := u, pipeline_version := v\<rparr> = P\<lparr>pipeline_version := v, pipeline_updated := u\<rparr>"
  by (cases P) simp

text \<open>One iteration, case by case.\<close>

lemma Update_cases:
  assumes "pipelineStore_Update B p \<sigma> = (err, \<sigma>')"
  obtains
    (bind) x q u where "err = Some (SQLError x ''Failed to bind pipeline object'')"
      "q = (heap \<sigma> ! p)\<lparr>pipeline_version := pipeline_version (heap \<sigma> ! p) + 1, pipeline_updated := u\<rparr>"
      "BindNamed B q = Some x" "trace \<sigma>' = trace \<sigma>" "heap \<sigma>' = heap \<sigma>"
  | (failed) q r u where "r \<noteq> Inr (Inr 0)" "reported (Exec q r) = err" "err \<noteq> None"
      "q = (heap \<sigma> ! p)\<lparr>pipeline_version := pipeline_version (heap \<sigma> ! p) + 1, pipeline_updated := u\<rparr>"
      "trace \<sigma>' = trace \<sigma> @ [Exec q r]" "heap \<sigma>' = heap \<sigma>"
  | (conflict) q u where "err = Some ErrVersionConflict"
      "q = (heap \<sigma> ! p)\<lparr>pipeline_version := pipeline_version (heap \<sigma> ! p) + 1, pipeline_updated := u\<rparr>"
      "trace \<sigma>' = trace \<sigma> @ [Exec q (Inr (Inr 0))]" "heap \<sigma>' = heap \<sigma>"
  | (updated) q k u where "err = None"
      "q = (heap \<sigma> ! p)\<lparr>pipeline_version := pipeline_version (heap \<sigma> ! p) + 1, pipeline_updated := u\<rparr>"
      "trace \<sigma>' = trace \<sigma> @ [Exec q (Inr (Inr (Suc k)))]" "heap \<sigma>' = (heap \<sigma>)[p := q]"
proof -
  obtain u d1 where now: "UnixMilliNow B (db \<sigma>) = (u, d1)" by (cases "UnixMilliNow B (db \<sigma>)")
  define q where "q = (heap \<sigma> ! p)\<lparr>pipeline_version := pipeline_version (heap \<sigma> ! p) + 1, pipeline_updated := u\<rparr>"
  show thesis
  proof (cases "BindNamed B q")
    case (Some x)
    with assms now q_def have b: "err = Some (SQLError x ''Failed to bind pipeline object'')"
      "trace \<sigma>' = trace \<sigma>" "heap \<sigma>' = heap \<sigma>"
      by (auto simp: pipelineStore_Update_def Let_def)
    show thesis by (rule bind [OF b(1) q_def Some b(2) b(3)])
  next
    case None
    obtain r d2 where ex: "ExecContext B q d1 = (r, d2)" by (cases "ExecContext B q d1")
    show thesis
    proof (cases r)
      case (Inl x)
      with assms now q_def None ex have "err = Some (SQLError x ''Failed to update pipeline'')"
        "trace \<sigma>' = trace \<sigma> @ [Exec q r]" "heap \<sigma>' = heap \<sigma>"
        by (auto simp: pipelineStore_Update_def Let_def)
      with Inl q_def show thesis by (intro failed [of r q u]) auto
    next
      case (Inr res)
      show thesis
      proof (cases res)
        case (Inl x)
        with assms now q_def None ex Inr have "err = Some (SQLError x ''Failed to get number of updated rows'')"
          "trace \<sigma>' = trace \<sigma> @ [Exec q r]" "heap \<sigma>' = heap \<sigma>"
          by (auto simp: pipelineStore_Update_def Let_def)
        with Inl Inr q_def show thesis by (intro failed [of r q u]) auto
      next
        case count: (Inr n)
        show thesis
        proof (cases n)
          case 0
          with assms now q_def None ex Inr count have "err = Some ErrVersionConflict"
            "trace \<sigma>' = trace \<sigma> @ [Exec q (Inr (Inr 0))]" "heap \<sigma>' = heap \<sigma>"
            by (auto simp: pipelineStore_Update_def Let_def)
          with q_def show thesis by (intro conflict [of q u]) auto
        next
          case (Suc k)
          with assms now q_def None ex Inr count have "err = None"
            "trace \<sigma>' = trace \<sigma> @ [Exec q (Inr (Inr (Suc k)))]" "heap \<sigma>' = (heap \<sigma>)[p := q]"
            by (auto simp: pipelineStore_Update_def Let_def updated_version_commute)
          with q_def show thesis by (intro updated [of q u k]) auto
        qed
      qed
    qed
  qed
qed

lemma Find_cases:
  assumes "pipelineStore_Find B i \<sigma> = (res, \<sigma>')"
  obtains
    (failed) x where "res = Inl (SQLError x ''Failed to find pipeline'')"
      "trace \<sigma>' = trace \<sigma> @ [Get i (Inl x)]" "heap \<sigma>' = heap \<sigma> @ [new_Pipeline]"
  | (found) row where "res = Inr (length (heap \<sigma>))"
      "trace \<sigma>' = trace \<sigma> @ [Get i (Inr row)]" "heap \<sigma>' = heap \<sigma> @ [row]"
proof -
  obtain r d where g: "GetContext B i (db \<sigma>) = (r, d)" by (cases "GetContext B i (db \<sigma>)")
  show thesis
  proof (cases r)
    case (Inl x)
    with assms g have "res = Inl (SQLError x ''Failed to find pipeline'')"
      "trace \<sigma>' = trace \<sigma> @ [Get i (Inl x)]" "heap \<sigma>' = heap \<sigma> @ [new_Pipeline]"
      by (auto simp: pipelineStore_Find_def Let_def)
    then show thesis by (rule failed)
  next
    case (Inr row)
    with assms g have "res = Inr (length (heap \<sigma>))"
      "trace \<sigma>' = trace \<sigma> @ [Get i (Inr row)]" "heap \<sigma>' = heap \<sigma> @ [row]"
      by (auto simp: pipelineStore_Find_def Let_def)
    then show thesis by (rule found)
  qed
qed

lemma attempt_incremented:
  "snd (f cur) = None \<Longrightarrow>
   attempt f cur ((fst (f cur))\<lparr>pipeline_version := pipeline_version (fst (f cur)) + 1, pipeline_updated := u\<rparr>)"
  by (simp add: attempt_def)

lemma UpdateOptLock_Suc_cases:
  assumes run: "pipelineStore_UpdateOptLock (Suc n) B p f \<sigma> = Some (res, \<sigma>')"
    and valid: "p < length (heap \<sigma>)"
  obtains
    (mutate) e where "snd (f (heap \<sigma> ! p)) = Some e" "res = (None, Some e)"
      "trace \<sigma>' = trace \<sigma>" "db \<sigma>' = db \<sigma>" "heap \<sigma>' = heap \<sigma> @ [fst (f (heap \<sigma> ! p))]"
  | (bind) x q where "attempt f (heap \<sigma> ! p) q" "BindNamed B q = Some x"
      "res = (None, Some (SQLError x ''Failed to bind pipeline object''))"
      "trace \<sigma>' = trace \<sigma>" "heap \<sigma>' = heap \<sigma> @ [fst (f (heap \<sigma> ! p))]"
  | (failed) q r e where "attempt f (heap \<sigma> ! p) q" "reported (Exec q r) = Some e"
      "res = (None, Some e)" "trace \<sigma>' = trace \<sigma> @ [Exec q r]"
      "heap \<sigma>' = heap \<sigma> @ [fst (f (heap \<sigma> ! p))]"
  | (updated) q k where "attempt f (heap \<sigma> ! p) q" "res = (Some (length (heap \<sigma>)), None)"
      "trace \<sigma>' = trace \<sigma> @ [Exec q (Inr (Inr (Suc k)))]" "heap \<sigma>' = heap \<sigma> @ [q]"
  | (lost) q x where "attempt f (heap \<sigma> ! p) q"
      "res = (None, Some (SQLError x ''Failed to find pipeline''))"
      "trace \<sigma>' = trace \<sigma> @ [Exec q (Inr (Inr 0)), Get (pipeline_id (heap \<sigma> ! p)) (Inl x)]"
      "heap \<sigma>' = heap \<sigma> @ [fst (f (heap \<sigma> ! p)), new_Pipeline]"
  | (retry) q row \<sigma>4 where "attempt f (heap \<sigma> ! p) q"
      "trace \<sigma>4 = trace \<sigma> @ [Exec q (Inr (Inr 0)), Get (pipeline_id (heap \<sigma> ! p)) (Inr row)]"
      "heap \<sigma>4 = heap \<sigma> @ [fst (f (heap \<sigma> ! p)), row]"
      "pipelineStore_UpdateOptLock n B (Suc (length (heap \<sigma>))) f \<sigma>4 = Some (res, \<sigma>')"
proof -
  define cur where "cur = heap \<sigma> ! p"
  obtain d me where f: "f cur = (d, me)" by (cases "f cur")
  define \<sigma>2 where "\<sigma>2 = \<sigma>\<lparr>heap := heap \<sigma> @ [d]\<rparr>"
  have h2: "heap \<sigma>2 = heap \<sigma> @ [d]" "trace \<sigma>2 = trace \<sigma>" "db \<sigma>2 = db \<sigma>"
    by (simp_all add: \<sigma>2_def)
  have h2dup: "heap \<sigma>2 ! length (heap \<sigma>) = d" by (simp add: \<sigma>2_def)
  have h2p: "heap \<sigma>2 ! p = cur" using valid by (simp add: \<sigma>2_def cur_def nth_append)
  show thesis
  proof (cases me)
    case (Some e)
    with run f have "res = (None, Some e)" "\<sigma>' = \<sigma>2"
      by (simp_all add: Let_def cur_def \<sigma>2_def)
    with f Some h2 have "snd (f (heap \<sigma> ! p)) = Some e" "res = (None, Some e)"
      "trace \<sigma>' = trace \<sigma>" "db \<sigma>' = db \<sigma>" "heap \<sigma>' = heap \<sigma> @ [fst (f (heap \<sigma> ! p))]"
      by (simp_all add: cur_def)
    then show thesis
      by (rule that(1))
  next
    case None
    obtain uerr \<sigma>3 where upd: "pipelineStore_Update B (length (heap \<sigma>)) \<sigma>2 = (uerr, \<sigma>3)"
      by (cases "pipelineStore_Update B (length (heap \<sigma>)) \<sigma>2")
    have run': "(case uerr of
                   None \<Rightarrow> Some ((Some (length (heap \<sigma>)), None), \<sigma>3)
                 | Some e \<Rightarrow>
                     if \<not> errors_Is e ErrVersionConflict then Some ((None, Some e), \<sigma>3)
                     else (case pipelineStore_Find B (pipeline_id (heap \<sigma>3 ! p)) \<sigma>3 of
                             (Inl e', \<sigma>4) \<Rightarrow> Some ((None, Some e'), \<sigma>4)
                           | (Inr fresh, \<sigma>4) \<Rightarrow> pipelineStore_UpdateOptLock n B fresh f \<sigma>4))
                = Some (res, \<sigma>')"
      using run f None upd by (simp add: Let_def cur_def \<sigma>2_def)
    have fnone: "snd (f (heap \<sigma> ! p)) = None" and ffst: "fst (f (heap \<sigma> ! p)) = d"
      using f None by (simp_all add: cur_def)
    from upd show thesis
    proof (cases rule: Update_cases)
      case (bind x q u)
      with run' have r: "res = (None, Some (SQLError x ''Failed to bind pipeline object''))" "\<sigma>' = \<sigma>3"
        by simp_all
      have att: "attempt f (heap \<sigma> ! p) q"
        using bind(2) h2dup fnone ffst attempt_incremented [of f "heap \<sigma> ! p" u] by simp
      from r bind h2 ffst
      have "trace \<sigma>' = trace \<sigma>" "heap \<sigma>' = heap \<sigma> @ [fst (f (heap \<sigma> ! p))]"
        by simp_all
      then show thesis
        by (rule that(2) [OF att bind(3) r(1)])
    next
      case (failed q r u)
      then obtain e where e: "uerr = Some e" "reported (Exec q r) = Some e" by auto
      have "\<not> errors_Is e ErrVersionConflict"
        using e(2) by (cases "Exec q r" rule: reported.cases) auto
      with run' e have r: "res = (None, Some e)" "\<sigma>' = \<sigma>3" by simp_all
      have att: "attempt f (heap \<sigma> ! p) q"
        using failed(4) h2dup fnone ffst attempt_incremented [of f "heap \<sigma> ! p" u] by simp
      from r failed h2 ffst
      have "trace \<sigma>' = trace \<sigma> @ [Exec q r]" "heap \<sigma>' = heap \<sigma> @ [fst (f (heap \<sigma> ! p))]"
        by simp_all
      then show thesis
        by (rule that(3) [OF att e(2) r(1)])
    next
      case (conflict q u)
      have att: "attempt f (heap \<sigma> ! p) q"
        using conflict(2) h2dup fnone ffst attempt_incremented [of f "heap \<sigma> ! p" u] by simp
      have id3: "pipeline_id (heap \<sigma>3 ! p) = pipeline_id (heap \<sigma> ! p)"
        using conflict(4) h2p by (simp add: cur_def)
      obtain fres \<sigma>4 where fnd: "pipelineStore_Find B (pipeline_id (heap \<sigma> ! p)) \<sigma>3 = (fres, \<sigma>4)"
        by (cases "pipelineStore_Find B (pipeline_id (heap \<sigma> ! p)) \<sigma>3")
      from fnd show thesis
      proof (cases rule: Find_cases)
        case (failed x)
        with run' conflict id3 fnd
        have r: "res = (None, Some (SQLError x ''Failed to find pipeline''))" "\<sigma>' = \<sigma>4"
          by simp_all
        from r failed conflict h2 ffst
        have "trace \<sigma>' = trace \<sigma> @ [Exec q (Inr (Inr 0)), Get (pipeline_id (heap \<sigma> ! p)) (Inl x)]"
          "heap \<sigma>' = heap \<sigma> @ [fst (f (heap \<sigma> ! p)), new_Pipeline]"
          by simp_all
        then show thesis
          by (rule that(5) [OF att r(1)])
      next
        case (found row)
        with run' conflict id3 fnd h2
        have r: "pipelineStore_UpdateOptLock n B (Suc (length (heap \<sigma>))) f \<sigma>4 = Some (res, \<sigma>')"
          by simp
        from found conflict h2 ffst
        have "trace \<sigma>4 = trace \<sigma> @ [Exec q (Inr (Inr 0)), Get (pipeline_id (heap \<sigma> ! p)) (Inr row)]"
          "heap \<sigma>4 = heap \<sigma> @ [fst (f (heap \<sigma> ! p)), row]"
          by simp_all
        then show thesis
          by (rule that(6) [OF att _ _ r])
      qed
    next
      case (updated q k u)
      with run' have r: "res = (Some (length (heap \<sigma>)), None)" "\<sigma>' = \<sigma>3" by simp_all
      have att: "attempt f (heap \<sigma> ! p) q"
        using updated(2) h2dup fnone ffst attempt_incremented [of f "heap \<sigma> ! p" u] by simp
      from r updated h2
      have "trace \<sigma>' = trace \<sigma> @ [Exec q (Inr (Inr (Suc k)))]" "heap \<sigma>' = heap \<sigma> @ [q]"
        by simp_all
      then show thesis
        by (rule that(4) [OF att r(1)])
    qed
  qed
qed

lemma retry_protocol_retry:
  "retry_protocol f cur (Exec q (Inr (Inr 0)) # Get (pipeline_id cur) (Inr row) # t)
     \<longleftrightarrow> attempt f cur q \<and> retry_protocol f row t"
  by simp

lemma UpdateOptLock_run:
  assumes "pipelineStore_UpdateOptLock n B p f \<sigma> = Some ((ptr, err), \<sigma>')"
    and "p < length (heap \<sigma>)"
  shows "\<exists>t ys. trace \<sigma>' = trace \<sigma> @ t \<and> heap \<sigma>' = heap \<sigma> @ ys
    \<and> retry_protocol f (heap \<sigma> ! p) t
    \<and> (ptr = None \<longleftrightarrow> err \<noteq> None)
    \<and> (err = None \<longrightarrow>
         (\<exists>dup q k. ptr = Some dup \<and> length (heap \<sigma>) \<le> dup \<and> dup < length (heap \<sigma>')
            \<and> t \<noteq> [] \<and> last t = Exec q (Inr (Inr (Suc k))) \<and> heap \<sigma>' ! dup = q))
    \<and> (\<forall>e. t \<noteq> [] \<and> reported (last t) = Some e \<longrightarrow> err = Some e)
    \<and> (err \<noteq> None \<and> (t = [] \<or> reported (last t) = None) \<longrightarrow>
         err = snd (f (current (heap \<sigma> ! p) t))
         \<or> (\<exists>x q. err = Some (SQLError x ''Failed to bind pipeline object'')
               \<and> BindNamed B q = Some x \<and> attempt f (current (heap \<sigma> ! p) t) q))"
  using assms
proof (induction n arbitrary: \<sigma> p)
  case 0
  then show ?case by simp
next
  case (Suc n)
  from Suc.prems show ?case
  proof (cases rule: UpdateOptLock_Suc_cases)
    case (mutate e)
    then show ?thesis
      by (intro exI [of _ "[]"] exI [of _ "[fst (f (heap \<sigma> ! p))]"]) simp
  next
    case (bind x q)
    then show ?thesis
      by (intro exI [of _ "[]"] exI [of _ "[fst (f (heap \<sigma> ! p))]"]) auto
  next
    case (failed q r e)
    then show ?thesis
      by (intro exI [of _ "[Exec q r]"] exI [of _ "[fst (f (heap \<sigma> ! p))]"]) simp
  next
    case (updated q k)
    then show ?thesis
      by (intro exI [of _ "[Exec q (Inr (Inr (Suc k)))]"] exI [of _ "[q]"]) simp
  next
    case (lost q x)
    then show ?thesis
      by (intro exI [of _ "[Exec q (Inr (Inr 0)), Get (pipeline_id (heap \<sigma> ! p)) (Inl x)]"]
            exI [of _ "[fst (f (heap \<sigma> ! p)), new_Pipeline]"]) simp
  next
    case (retry q row \<sigma>4)
    have valid4: "Suc (length (heap \<sigma>)) < length (heap \<sigma>4)"
      and cur4: "heap \<sigma>4 ! Suc (length (heap \<sigma>)) = row"
      using retry(3) by (simp_all add: nth_append)
    from Suc.IH [OF retry(4) valid4] obtain t ys where
      t: "trace \<sigma>' = trace \<sigma>4 @ t" and ys: "heap \<sigma>' = heap \<sigma>4 @ ys"
      and prot: "retry_protocol f row t"
      and one: "ptr = None \<longleftrightarrow> err \<noteq> None"
      and ok: "err = None \<longrightarrow>
         (\<exists>dup q k. ptr = Some dup \<and> length (heap \<sigma>4) \<le> dup \<and> dup < length (heap \<sigma>')
            \<and> t \<noteq> [] \<and> last t = Exec q (Inr (Inr (Suc k))) \<and> heap \<sigma>' ! dup = q)"
      and rep: "\<forall>e. t \<noteq> [] \<and> reported (last t) = Some e \<longrightarrow> err = Some e"
      and mut: "err \<noteq> None \<and> (t = [] \<or> reported (last t) = None) \<longrightarrow>
         err = snd (f (current row t))
         \<or> (\<exists>x q. err = Some (SQLError x ''Failed to bind pipeline object'')
               \<and> BindNamed B q = Some x \<and> attempt f (current row t) q)"
      unfolding cur4 by (elim exE conjE) (rule that, assumption+)
    let ?t = "Exec q (Inr (Inr 0)) # Get (pipeline_id (heap \<sigma> ! p)) (Inr row) # t"
    let ?ys = "fst (f (heap \<sigma> ! p)) # row # ys"
    have 1: "trace \<sigma>' = trace \<sigma> @ ?t" using t retry(2) by simp
    have 2: "heap \<sigma>' = heap \<sigma> @ ?ys" using ys retry(3) by simp
    have 3: "retry_protocol f (heap \<sigma> ! p) ?t"
      using prot retry(1) by (simp only: retry_protocol_retry)
    have last: "last ?t = (if t = [] then Get (pipeline_id (heap \<sigma> ! p)) (Inr row) else last t)"
      by simp
    have cur: "current (heap \<sigma> ! p) ?t = current row t" by simp
    have 5: "err = None \<longrightarrow>
         (\<exists>dup q k. ptr = Some dup \<and> length (heap \<sigma>) \<le> dup \<and> dup < length (heap \<sigma>')
            \<and> ?t \<noteq> [] \<and> last ?t = Exec q (Inr (Inr (Suc k))) \<and> heap \<sigma>' ! dup = q)"
    proof
      assume "err = None"
      with ok obtain dup q' k where d: "ptr = Some dup" "length (heap \<sigma>4) \<le> dup"
        "dup < length (heap \<sigma>')" "t \<noteq> []" "last t = Exec q' (Inr (Inr (Suc k)))" "heap \<sigma>' ! dup = q'"
        by blast
      moreover have "length (heap \<sigma>) \<le> dup" using d(2) retry(3) by simp
      ultimately show "\<exists>dup q k. ptr = Some dup \<and> length (heap \<sigma>) \<le> dup \<and> dup < length (heap \<sigma>')
            \<and> ?t \<noteq> [] \<and> last ?t = Exec q (Inr (Inr (Suc k))) \<and> heap \<sigma>' ! dup = q"
        unfolding last by auto
    qed
    have 6: "\<forall>e. ?t \<noteq> [] \<and> reported (last ?t) = Some e \<longrightarrow> err = Some e"
      unfolding last using rep by (cases "t = []") simp_all
    have 7: "err \<noteq> None \<and> (?t = [] \<or> reported (last ?t) = None) \<longrightarrow>
         err = snd (f (current (heap \<sigma> ! p) ?t))
         \<or> (\<exists>x q. err = Some (SQLError x ''Failed to bind pipeline object'')
               \<and> BindNamed B q = Some x \<and> attempt f (current (heap \<sigma> ! p) ?t) q)"
      unfolding last cur using mut by (cases "t = []") simp_all
    from 1 2 3 one 5 6 7 show ?thesis
      by (intro exI [of _ ?t] exI [of _ ?ys] conjI)
  qed
qed


lemma retry_protocol_last_attempt:
  "retry_protocol f cur t \<Longrightarrow> t \<noteq> [] \<Longrightarrow> last t = Exec q r \<Longrightarrow> attempt f (current cur t) q"
proof (induction f cur t rule: retry_protocol.induct)
  case (3 mutateFn cur q' r' i g rest)
  show ?case
  proof (cases g)
    case (Inl x)
    with 3 show ?thesis by simp
  next
    case (Inr row)
    with 3 show ?thesis by (cases "rest = []") simp_all
  qed
qed simp_all


lemma list_update_second_new:
  "(xs @ [a, b])[Suc (length xs) := c] = xs @ [a, c]"
  by (simp add: list_update_append)

lemma state_update_order:
  "\<sigma>\<lparr>trace := t, db := d, heap := h\<rparr> = \<sigma>\<lparr>heap := h, trace := t, db := d\<rparr>"
  by (cases \<sigma>) simp

lemma UpdateOptLock_step:
  assumes valid: "p < length (heap \<sigma>)"
    and f: "mutateFn (heap \<sigma> ! p) = (m, me)"
    and now: "UnixMilliNow B (db \<sigma>) = (u, d1)"
    and q: "q = m\<lparr>pipeline_version := pipeline_version m + 1, pipeline_updated := u\<rparr>"
    and ex: "ExecContext B q d1 = (r, d2)"
    and get: "GetContext B (pipeline_id (heap \<sigma> ! p)) d2 = (g, d3)"
  shows "pipelineStore_UpdateOptLock (Suc n) B p mutateFn \<sigma> =
     (case me of
        Some e \<Rightarrow> Some ((None, Some e), \<sigma>\<lparr>heap := heap \<sigma> @ [m]\<rparr>)
      | None \<Rightarrow>
          (case BindNamed B q of
             Some x \<Rightarrow>
               Some ((None, Some (SQLError x ''Failed to bind pipeline object'')),
                     \<sigma>\<lparr>heap := heap \<sigma> @ [m], db := d1\<rparr>)
           | None \<Rightarrow>
               (case r of
                  Inl x \<Rightarrow>
                    Some ((None, Some (SQLError x ''Failed to update pipeline'')),
                          \<sigma>\<lparr>heap := heap \<sigma> @ [m], trace := trace \<sigma> @ [Exec q r], db := d2\<rparr>)
                | Inr (Inl x) \<Rightarrow>
                    Some ((None, Some (SQLError x ''Failed to get number of updated rows'')),
                          \<sigma>\<lparr>heap := heap \<sigma> @ [m], trace := trace \<sigma> @ [Exec q r], db := d2\<rparr>)
                | Inr (Inr (Suc k)) \<Rightarrow>
                    Some ((Some (length (heap \<sigma>)), None),
                          \<sigma>\<lparr>heap := heap \<sigma> @ [q], trace := trace \<sigma> @ [Exec q r], db := d2\<rparr>)
                | Inr (Inr 0) \<Rightarrow>
                    (case g of
                       Inl x \<Rightarrow>
                         Some ((None, Some (SQLError x ''Failed to find pipeline'')),
                               \<sigma>\<lparr>heap := heap \<sigma> @ [m, new_Pipeline],
                                  trace := trace \<sigma> @ [Exec q r, Get (pipeline_id (heap \<sigma> ! p)) g],
                                  db := d3\<rparr>)
                     | Inr row \<Rightarrow>
                         pipelineStore_UpdateOptLock n B (Suc (length (heap \<sigma>))) mutateFn
                           (\<sigma>\<lparr>heap := heap \<sigma> @ [m, row],
                              trace := trace \<sigma> @ [Exec q r, Get (pipeline_id (heap \<sigma> ! p)) g],
                              db := d3\<rparr>)))))"
proof (cases me)
  case (Some e)
  with f show ?thesis by (simp add: Let_def)
next
  case None
  note me = None
  show ?thesis
  proof (cases "BindNamed B q")
    case (Some x)
    with f me now q show ?thesis
      by (simp add: Let_def pipelineStore_Update_def)
  next
    case None
    note bn = None
    show ?thesis
    proof (cases r)
      case (Inl x)
      with f me now q bn ex show ?thesis
        by (simp add: Let_def pipelineStore_Update_def)
    next
      case (Inr res)
      show ?thesis
      proof (cases res)
        case (Inl x)
        with f me now q bn ex Inr show ?thesis
          by (simp add: Let_def pipelineStore_Update_def)
      next
        case count: (Inr c)
        show ?thesis
        proof (cases c)
          case (Suc k)
          with f me now q bn ex Inr count show ?thesis
            by (simp add: Let_def pipelineStore_Update_def updated_version_commute)
        next
          case 0
          show ?thesis
          proof (cases g)
            case (Inl x)
            with f me now q bn ex Inr count 0 get valid show ?thesis
              by (simp add: Let_def pipelineStore_Update_def pipelineStore_Find_def nth_append)
          next
            case row: (Inr row)
            with f me now q bn ex Inr count 0 get valid show ?thesis
              by (simp add: Let_def pipelineStore_Update_def pipelineStore_Find_def nth_append
                  list_update_second_new state_update_order)
          qed
        qed
      qed
    qed
  qed
qed

lemma UpdateOptLock_None_iff:
  assumes "p < length (heap \<sigma>)"
  shows "pipelineStore_UpdateOptLock n B p mutateFn \<sigma> = None
         \<longleftrightarrow> contended n B (heap \<sigma> ! p) mutateFn (db \<sigma>)"
  using assms
proof (induction n arbitrary: \<sigma> p)
  case 0
  show ?case by simp
next
  case (Suc n)
  obtain m me where f: "mutateFn (heap \<sigma> ! p) = (m, me)"
    by (cases "mutateFn (heap \<sigma> ! p)")
  obtain u d1 where now: "UnixMilliNow B (db \<sigma>) = (u, d1)"
    by (cases "UnixMilliNow B (db \<sigma>)")
  define q where "q = m\<lparr>pipeline_version := pipeline_version m + 1, pipeline_updated := u\<rparr>"
  obtain r d2 where ex: "ExecContext B q d1 = (r, d2)"
    by (cases "ExecContext B q d1")
  obtain g d3 where get: "GetContext B (pipeline_id (heap \<sigma> ! p)) d2 = (g, d3)"
    by (cases "GetContext B (pipeline_id (heap \<sigma> ! p)) d2")
  note step = UpdateOptLock_step [where mutateFn = mutateFn and p = p and \<sigma> = \<sigma> and n = n,
      OF Suc.prems f now q_def ex get]
  have cont: "contended (Suc n) B (heap \<sigma> ! p) mutateFn (db \<sigma>)
      \<longleftrightarrow> me = None \<and> BindNamed B q = None \<and> r = Inr (Inr 0) \<and>
          (case g of Inl x \<Rightarrow> False | Inr row \<Rightarrow> contended n B row mutateFn d3)"
    using f now ex get by (simp add: q_def [symmetric])
  show ?case
  proof (cases "me = None \<and> BindNamed B q = None \<and> r = Inr (Inr 0) \<and> (\<exists>row. g = Inr row)")
    case False
    then have "\<not> contended (Suc n) B (heap \<sigma> ! p) mutateFn (db \<sigma>)"
      unfolding cont by (auto split: sum.splits)
    moreover from False have "pipelineStore_UpdateOptLock (Suc n) B p mutateFn \<sigma> \<noteq> None"
      unfolding step by (auto split: option.splits sum.splits nat.splits)
    ultimately show ?thesis by simp
  next
    case True
    then obtain row where g: "g = Inr row" and rest: "me = None" "BindNamed B q = None" "r = Inr (Inr 0)"
      by blast
    let ?\<sigma>4 = "\<sigma>\<lparr>heap := heap \<sigma> @ [m, row],
                  trace := trace \<sigma> @ [Exec q r, Get (pipeline_id (heap \<sigma> ! p)) g],
                  db := d3\<rparr>"
    have "pipelineStore_UpdateOptLock (Suc n) B p mutateFn \<sigma>
          = pipelineStore_UpdateOptLock n B (Suc (length (heap \<sigma>))) mutateFn ?\<sigma>4"
      unfolding step using g rest by simp
    moreover have "pipelineStore_UpdateOptLock n B (Suc (length (heap \<sigma>))) mutateFn ?\<sigma>4 = None
          \<longleftrightarrow> contended n B (heap ?\<sigma>4 ! Suc (length (heap \<sigma>))) mutateFn (db ?\<sigma>4)"
      by (rule Suc.IH) simp
    moreover have "heap ?\<sigma>4 ! Suc (length (heap \<sigma>)) = row" "db ?\<sigma>4 = d3"
      by (simp_all add: nth_append)
    ultimately show ?thesis
      unfolding cont using g rest by simp
  qed
qed

text \<open>
  C2. \<open>UpdateOptLock\<close> on any backend, for a valid pointer \<open>p\<close> and any mutation
  function.
  \<^item> If the mutation function fails on the input, the call returns nil and that error at
    once; the trace and the database are as before (no statement was sent).
  \<^item> One iteration, from what the backend answers: a mutation error is returned with no
    statement sent; otherwise the update binds the mutated copy \<open>q\<close> of the struct with the
    version plus one; an error of binding, of the update or of \<open>RowsAffected\<close> is returned
    at once, with nil; an update that changed a row returns a new struct holding \<open>q\<close>;
    an update that changed no row is followed by a read of the entity, whose error is
    returned at once, and whose row is what the next iteration starts from.
  \<^item> The call returns within \<open>n\<close> iterations unless each of these \<open>n\<close> iterations met a
    version conflict followed by a successful read (\<open>contended\<close>).
  \<^item> Whenever the call returns: no struct that existed before the call has changed, the
    caller's included (the mutation works on copies); exactly one of the pointer and
    the error is nil; the statements sent follow \<open>retry_protocol\<close> (each update binds the
    mutated copy of the current struct, only an update that changed no row is followed
    by anything, what follows is a read of the entity, and only a read that gave a row is
    followed by anything, the row being the current struct from then on); if the last
    statement failed, its error is the result; a call that ends without a failed last
    statement and with an error returns the mutation function's error on the current
    struct, or the error of binding the mutated copy of the current struct; on success
    the last statement is an update that changed at least one row, and the pointer
    returned is a new struct that holds the mutated copy that statement wrote.
\<close>

theorem UpdateOptLock_protocol:
  assumes valid: "p < length (heap \<sigma>)"
  shows
   "(\<forall>e. snd (mutateFn (heap \<sigma> ! p)) = Some e \<longrightarrow>
        pipelineStore_UpdateOptLock (Suc n) B p mutateFn \<sigma>
          = Some ((None, Some e), \<sigma>\<lparr>heap := heap \<sigma> @ [fst (mutateFn (heap \<sigma> ! p))]\<rparr>))
    \<and> (let (m, me) = mutateFn (heap \<sigma> ! p);
            (u, d1) = UnixMilliNow B (db \<sigma>);
            q = m\<lparr>pipeline_version := pipeline_version m + 1, pipeline_updated := u\<rparr>;
            (r, d2) = ExecContext B q d1;
            (g, d3) = GetContext B (pipeline_id (heap \<sigma> ! p)) d2
        in pipelineStore_UpdateOptLock (Suc n) B p mutateFn \<sigma> =
           (case me of
              Some e \<Rightarrow> Some ((None, Some e), \<sigma>\<lparr>heap := heap \<sigma> @ [m]\<rparr>)
            | None \<Rightarrow>
                (case BindNamed B q of
                   Some x \<Rightarrow>
                     Some ((None, Some (SQLError x ''Failed to bind pipeline object'')),
                           \<sigma>\<lparr>heap := heap \<sigma> @ [m], db := d1\<rparr>)
                 | None \<Rightarrow>
                     (case r of
                        Inl x \<Rightarrow>
                          Some ((None, Some (SQLError x ''Failed to update pipeline'')),
                                \<sigma>\<lparr>heap := heap \<sigma> @ [m], trace := trace \<sigma> @ [Exec q r], db := d2\<rparr>)
                      | Inr (Inl x) \<Rightarrow>
                          Some ((None, Some (SQLError x ''Failed to get number of updated rows'')),
                                \<sigma>\<lparr>heap := heap \<sigma> @ [m], trace := trace \<sigma> @ [Exec q r], db := d2\<rparr>)
                      | Inr (Inr (Suc k)) \<Rightarrow>
                          Some ((Some (length (heap \<sigma>)), None),
                                \<sigma>\<lparr>heap := heap \<sigma> @ [q], trace := trace \<sigma> @ [Exec q r], db := d2\<rparr>)
                      | Inr (Inr 0) \<Rightarrow>
                          (case g of
                             Inl x \<Rightarrow>
                               Some ((None, Some (SQLError x ''Failed to find pipeline'')),
                                     \<sigma>\<lparr>heap := heap \<sigma> @ [m, new_Pipeline],
                                        trace := trace \<sigma> @ [Exec q r, Get (pipeline_id (heap \<sigma> ! p)) g],
                                        db := d3\<rparr>)
                           | Inr row \<Rightarrow>
                               pipelineStore_UpdateOptLock n B (Suc (length (heap \<sigma>))) mutateFn
                                 (\<sigma>\<lparr>heap := heap \<sigma> @ [m, row],
                                    trace := trace \<sigma> @ [Exec q r, Get (pipeline_id (heap \<sigma> ! p)) g],
                                    db := d3\<rparr>))))))
    \<and> (pipelineStore_UpdateOptLock n B p mutateFn \<sigma> = None
          \<longleftrightarrow> contended n B (heap \<sigma> ! p) mutateFn (db \<sigma>))
    \<and> (\<forall>ptr err \<sigma>'. pipelineStore_UpdateOptLock n B p mutateFn \<sigma> = Some ((ptr, err), \<sigma>') \<longrightarrow>
        (\<forall>a < length (heap \<sigma>). heap \<sigma>' ! a = heap \<sigma> ! a)
        \<and> (ptr = None \<longleftrightarrow> err \<noteq> None)
        \<and> (\<exists>t. trace \<sigma>' = trace \<sigma> @ t
             \<and> retry_protocol mutateFn (heap \<sigma> ! p) t
             \<and> (\<forall>e. t \<noteq> [] \<and> reported (last t) = Some e \<longrightarrow> err = Some e)
             \<and> (err \<noteq> None \<and> (t = [] \<or> reported (last t) = None) \<longrightarrow>
                  err = snd (mutateFn (current (heap \<sigma> ! p) t))
                  \<or> (\<exists>x q. err = Some (SQLError x ''Failed to bind pipeline object'')
                        \<and> BindNamed B q = Some x \<and> attempt mutateFn (current (heap \<sigma> ! p) t) q))
             \<and> (err = None \<longrightarrow>
                  (\<exists>dup q k. ptr = Some dup \<and> length (heap \<sigma>) \<le> dup \<and> dup < length (heap \<sigma>')
                     \<and> t \<noteq> [] \<and> last t = Exec q (Inr (Inr (Suc k)))
                     \<and> attempt mutateFn (current (heap \<sigma> ! p) t) q
                     \<and> heap \<sigma>' ! dup = q))))"
  (is "?one \<and> ?step \<and> ?fuel \<and> ?run")
proof -
  have one: ?one
  proof (intro allI impI)
  fix e assume "snd (mutateFn (heap \<sigma> ! p)) = Some e"
  then show "pipelineStore_UpdateOptLock (Suc n) B p mutateFn \<sigma>
          = Some ((None, Some e), \<sigma>\<lparr>heap := heap \<sigma> @ [fst (mutateFn (heap \<sigma> ! p))]\<rparr>)"
    by (cases "mutateFn (heap \<sigma> ! p)") (simp add: Let_def)
  qed
  have step: ?step
    by (simp only: Let_def split_def)
       (rule UpdateOptLock_step [OF valid], simp_all)
  have fuel: ?fuel
    by (rule UpdateOptLock_None_iff [OF valid])
  have run: ?run
  proof (intro conjI allI impI)
  fix ptr err \<sigma>'
  assume run: "pipelineStore_UpdateOptLock n B p mutateFn \<sigma> = Some ((ptr, err), \<sigma>')"
  from UpdateOptLock_run [OF run valid] obtain t ys where
      t: "trace \<sigma>' = trace \<sigma> @ t" and ys: "heap \<sigma>' = heap \<sigma> @ ys"
      and prot: "retry_protocol mutateFn (heap \<sigma> ! p) t"
      and one: "ptr = None \<longleftrightarrow> err \<noteq> None"
      and ok: "err = None \<longrightarrow>
         (\<exists>dup q k. ptr = Some dup \<and> length (heap \<sigma>) \<le> dup \<and> dup < length (heap \<sigma>')
            \<and> t \<noteq> [] \<and> last t = Exec q (Inr (Inr (Suc k))) \<and> heap \<sigma>' ! dup = q)"
      and rep: "\<forall>e. t \<noteq> [] \<and> reported (last t) = Some e \<longrightarrow> err = Some e"
      and mut: "err \<noteq> None \<and> (t = [] \<or> reported (last t) = None) \<longrightarrow>
         err = snd (mutateFn (current (heap \<sigma> ! p) t))
         \<or> (\<exists>x q. err = Some (SQLError x ''Failed to bind pipeline object'')
               \<and> BindNamed B q = Some x \<and> attempt mutateFn (current (heap \<sigma> ! p) t) q)"
    by (elim exE conjE) (rule that, assumption+)
  show "ptr = None \<longleftrightarrow> err \<noteq> None" by (rule one)
  show "\<And>a. a < length (heap \<sigma>) \<Longrightarrow> heap \<sigma>' ! a = heap \<sigma> ! a"
    using ys by (simp add: nth_append)
  have ok': "err = None \<longrightarrow>
                  (\<exists>dup q k. ptr = Some dup \<and> length (heap \<sigma>) \<le> dup \<and> dup < length (heap \<sigma>')
                     \<and> t \<noteq> [] \<and> last t = Exec q (Inr (Inr (Suc k)))
                     \<and> attempt mutateFn (current (heap \<sigma> ! p) t) q
                     \<and> heap \<sigma>' ! dup = q)"
  proof
    assume "err = None"
    with ok obtain dup q k where d: "ptr = Some dup" "length (heap \<sigma>) \<le> dup"
        "dup < length (heap \<sigma>')" "t \<noteq> []" "last t = Exec q (Inr (Inr (Suc k)))" "heap \<sigma>' ! dup = q"
      by blast
    from retry_protocol_last_attempt [OF prot d(4) d(5)] d
    show "\<exists>dup q k. ptr = Some dup \<and> length (heap \<sigma>) \<le> dup \<and> dup < length (heap \<sigma>')
                     \<and> t \<noteq> [] \<and> last t = Exec q (Inr (Inr (Suc k)))
                     \<and> attempt mutateFn (current (heap \<sigma> ! p) t) q
                     \<and> heap \<sigma>' ! dup = q"
      by blast
  qed
  from t prot rep mut ok'
  show "\<exists>t. trace \<sigma>' = trace \<sigma> @ t
             \<and> retry_protocol mutateFn (heap \<sigma> ! p) t
             \<and> (\<forall>e. t \<noteq> [] \<and> reported (last t) = Some e \<longrightarrow> err = Some e)
             \<and> (err \<noteq> None \<and> (t = [] \<or> reported (last t) = None) \<longrightarrow>
                  err = snd (mutateFn (current (heap \<sigma> ! p) t))
                  \<or> (\<exists>x q. err = Some (SQLError x ''Failed to bind pipeline object'')
                        \<and> BindNamed B q = Some x \<and> attempt mutateFn (current (heap \<sigma> ! p) t) q))
             \<and> (err = None \<longrightarrow>
                  (\<exists>dup q k. ptr = Some dup \<and> length (heap \<sigma>) \<le> dup \<and> dup < length (heap \<sigma>')
                     \<and> t \<noteq> [] \<and> last t = Exec q (Inr (Inr (Suc k)))
                     \<and> attempt mutateFn (current (heap \<sigma> ! p) t) q
                     \<and> heap \<sigma>' ! dup = q))"
    by (intro exI [of _ t] conjI)
  qed
  from one step fuel run show ?thesis
    by (intro conjI)
qed


lemma stale_run:
  "case pipelineStore_UpdateOptLock 2 tabledb 0 incrementSeq s_stale of
     None \<Rightarrow> False
   | Some ((ptr, err), \<sigma>') \<Rightarrow>
       ptr = Some 3 \<and> err = None \<and> length (trace \<sigma>') = 3
       \<and> pipeline_seq (heap \<sigma>' ! 3) = 6 \<and> pipeline_version (heap \<sigma>' ! 3) = 4"
  by code_simp

theorem UpdateOptLock_protocol_witness:
  "0 < length (heap s_stale)
   \<and> pipelineStore_UpdateOptLock 1 tabledb 0 refuse s_stale
       = Some ((None, Some (OtherError ''refused'')), s_stale\<lparr>heap := heap s_stale @ [heap s_stale ! 0]\<rparr>)
   \<and> (\<exists>\<sigma>'. pipelineStore_UpdateOptLock 2 tabledb 0 incrementSeq s_stale = Some ((Some 3, None), \<sigma>')
         \<and> heap \<sigma>' ! 0 = heap s_stale ! 0
         \<and> length (trace \<sigma>') = 3
         \<and> pipeline_seq (heap \<sigma>' ! 3) = 6 \<and> pipeline_version (heap \<sigma>' ! 3) = 4)"
proof -
  have v: "0 < length (heap s_stale)" by (simp add: s_stale_def)
  have r: "snd (refuse (heap s_stale ! 0)) = Some (OtherError ''refused'')"
    and r': "fst (refuse (heap s_stale ! 0)) = heap s_stale ! 0"
    by (simp_all add: refuse_def)
  obtain \<sigma>' where run: "pipelineStore_UpdateOptLock 2 tabledb 0 incrementSeq s_stale = Some ((Some 3, None), \<sigma>')"
    and facts: "length (trace \<sigma>') = 3" "pipeline_seq (heap \<sigma>' ! 3) = 6" "pipeline_version (heap \<sigma>' ! 3) = 4"
    using stale_run by (auto split: option.splits prod.splits)
  have A: "pipelineStore_UpdateOptLock 1 tabledb 0 refuse s_stale
       = Some ((None, Some (OtherError ''refused'')), s_stale\<lparr>heap := heap s_stale @ [heap s_stale ! 0]\<rparr>)"
    using UpdateOptLock_protocol [OF v, where mutateFn = refuse and n = 0 and B = tabledb] r r'
    by simp
  have B: "heap \<sigma>' ! 0 = heap s_stale ! 0"
    using UpdateOptLock_protocol [OF v, where mutateFn = incrementSeq and n = 2 and B = tabledb] run v
    by blast
  from v A B run facts show ?thesis by blast
qed


subsection \<open>IncrementSeqNum\<close>


text \<open>Two calls on structs with equal fields, against the same database, fare alike.\<close>

lemma Update_agree:
  assumes "pa < length (heap \<sigma>a)" "pb < length (heap \<sigma>b)"
    and "heap \<sigma>a ! pa = heap \<sigma>b ! pb" "db \<sigma>a = db \<sigma>b" "trace \<sigma>a = trace \<sigma>b"
    and "pipelineStore_Update B pa \<sigma>a = (ea, \<sigma>a')" "pipelineStore_Update B pb \<sigma>b = (eb, \<sigma>b')"
  shows "ea = eb \<and> db \<sigma>a' = db \<sigma>b' \<and> trace \<sigma>a' = trace \<sigma>b'
    \<and> length (heap \<sigma>a') = length (heap \<sigma>a) \<and> length (heap \<sigma>b') = length (heap \<sigma>b)
    \<and> heap \<sigma>a' ! pa = heap \<sigma>b' ! pb
    \<and> pipeline_id (heap \<sigma>a' ! pa) = pipeline_id (heap \<sigma>a ! pa)
    \<and> (\<forall>i. i \<noteq> pb \<longrightarrow> heap \<sigma>b' ! i = heap \<sigma>b ! i)"
proof -
  obtain u d1 where now: "UnixMilliNow B (db \<sigma>b) = (u, d1)" by (cases "UnixMilliNow B (db \<sigma>b)")
  define q where "q = (heap \<sigma>b ! pb)\<lparr>pipeline_version := pipeline_version (heap \<sigma>b ! pb) + 1, pipeline_updated := u\<rparr>"
  obtain r d2 where ex: "ExecContext B q d1 = (r, d2)" by (cases "ExecContext B q d1")
  show ?thesis
    using assms now ex q_def
    by (cases "BindNamed B q"; cases r; cases "projr r"; cases "projr (projr r)")
       (auto simp: pipelineStore_Update_def Let_def)
qed

lemma Find_agree:
  assumes "db \<sigma>a = db \<sigma>b" "trace \<sigma>a = trace \<sigma>b"
    and "pipelineStore_Find B i \<sigma>a = (ra, \<sigma>a')" "pipelineStore_Find B i \<sigma>b = (rb, \<sigma>b')"
  shows "db \<sigma>a' = db \<sigma>b' \<and> trace \<sigma>a' = trace \<sigma>b'
    \<and> ((\<exists>e. ra = Inl e \<and> rb = Inl e)
       \<or> (\<exists>row. ra = Inr (length (heap \<sigma>a)) \<and> rb = Inr (length (heap \<sigma>b))
             \<and> heap \<sigma>a' = heap \<sigma>a @ [row] \<and> heap \<sigma>b' = heap \<sigma>b @ [row]))"
proof -
  obtain r d where g: "GetContext B i (db \<sigma>b) = (r, d)" by (cases "GetContext B i (db \<sigma>b)")
  show ?thesis
    using assms g by (cases r) (auto simp: pipelineStore_Find_def Let_def)
qed

lemma SQLError_not_conflict:
  "reported ev = Some e \<Longrightarrow> \<not> errors_Is e ErrVersionConflict"
  by (cases ev rule: reported.cases) auto

lemma IncrementSeqNum_agrees:
  assumes "pa < length (heap \<sigma>a)" "pb < length (heap \<sigma>b)"
    and "heap \<sigma>a ! pa = heap \<sigma>b ! pb" "db \<sigma>a = db \<sigma>b" "trace \<sigma>a = trace \<sigma>b"
  shows "case (pipelineStore_IncrementSeqNum n B pa \<sigma>a,
               pipelineStore_UpdateOptLock n B pb incrementSeq \<sigma>b) of
           (None, None) \<Rightarrow> True
         | (Some ((ptr1, err1), \<sigma>1), Some ((ptr2, err2), \<sigma>2)) \<Rightarrow>
             trace \<sigma>1 = trace \<sigma>2 \<and> db \<sigma>1 = db \<sigma>2 \<and>
             (case err2 of
                None \<Rightarrow> err1 = None \<and> (\<exists>a b. ptr1 = Some a \<and> ptr2 = Some b \<and> heap \<sigma>1 ! a = heap \<sigma>2 ! b)
              | Some e \<Rightarrow> ptr2 = None \<and> err1 = Some (Wrapped e could_not_increment))
         | _ \<Rightarrow> False"
  using assms
proof (induction n arbitrary: \<sigma>a \<sigma>b pa pb)
  case 0
  then show ?case by simp
next
  case (Suc n)
  define cur where "cur = (heap \<sigma>b ! pb)\<lparr>pipeline_seq := pipeline_seq (heap \<sigma>b ! pb) + 1\<rparr>"
  define \<sigma>a1 where "\<sigma>a1 = \<sigma>a\<lparr>heap := (heap \<sigma>a)[pa := cur]\<rparr>"
  define \<sigma>b2 where "\<sigma>b2 = \<sigma>b\<lparr>heap := heap \<sigma>b @ [cur]\<rparr>"
  obtain ea \<sigma>a2 where ua: "pipelineStore_Update B pa \<sigma>a1 = (ea, \<sigma>a2)"
    by (cases "pipelineStore_Update B pa \<sigma>a1")
  obtain eb \<sigma>b3 where ub: "pipelineStore_Update B (length (heap \<sigma>b)) \<sigma>b2 = (eb, \<sigma>b3)"
    by (cases "pipelineStore_Update B (length (heap \<sigma>b)) \<sigma>b2")
  have ISN: "pipelineStore_IncrementSeqNum (Suc n) B pa \<sigma>a =
     (case ea of
        None \<Rightarrow> Some ((Some pa, None), \<sigma>a2)
      | Some e \<Rightarrow>
          if \<not> errors_Is e ErrVersionConflict
          then Some ((Some pa, Some (Wrapped e could_not_increment)), \<sigma>a2)
          else (case pipelineStore_Find B (pipeline_id (heap \<sigma>a2 ! pa)) \<sigma>a2 of
                  (Inl e', \<sigma>3) \<Rightarrow> Some ((None, Some (Wrapped e' could_not_increment)), \<sigma>3)
                | (Inr fresh, \<sigma>3) \<Rightarrow> pipelineStore_IncrementSeqNum n B fresh \<sigma>3))"
    using ua Suc.prems(3) by (simp add: Let_def \<sigma>a1_def cur_def)
  have UOL: "pipelineStore_UpdateOptLock (Suc n) B pb incrementSeq \<sigma>b =
     (case eb of
        None \<Rightarrow> Some ((Some (length (heap \<sigma>b)), None), \<sigma>b3)
      | Some e \<Rightarrow>
          if \<not> errors_Is e ErrVersionConflict then Some ((None, Some e), \<sigma>b3)
          else (case pipelineStore_Find B (pipeline_id (heap \<sigma>b3 ! pb)) \<sigma>b3 of
                  (Inl e', \<sigma>4) \<Rightarrow> Some ((None, Some e'), \<sigma>4)
                | (Inr fresh, \<sigma>4) \<Rightarrow> pipelineStore_UpdateOptLock n B fresh incrementSeq \<sigma>4))"
    using ub by (simp add: Let_def \<sigma>b2_def cur_def incrementSeq_def)
  have pre: "pa < length (heap \<sigma>a1)" "length (heap \<sigma>b) < length (heap \<sigma>b2)"
    "heap \<sigma>a1 ! pa = heap \<sigma>b2 ! length (heap \<sigma>b)" "db \<sigma>a1 = db \<sigma>b2" "trace \<sigma>a1 = trace \<sigma>b2"
    using Suc.prems by (simp_all add: \<sigma>a1_def \<sigma>b2_def)
  from Update_agree [OF pre ua ub]
  have same: "ea = eb" "db \<sigma>a2 = db \<sigma>b3" "trace \<sigma>a2 = trace \<sigma>b3"
    and len: "length (heap \<sigma>a2) = length (heap \<sigma>a1)" "length (heap \<sigma>b3) = length (heap \<sigma>b2)"
    and val: "heap \<sigma>a2 ! pa = heap \<sigma>b3 ! length (heap \<sigma>b)"
    and ida: "pipeline_id (heap \<sigma>a2 ! pa) = pipeline_id (heap \<sigma>a1 ! pa)"
    and oth: "\<forall>i. i \<noteq> length (heap \<sigma>b) \<longrightarrow> heap \<sigma>b3 ! i = heap \<sigma>b2 ! i"
    by blast+
  have ids: "pipeline_id (heap \<sigma>a2 ! pa) = pipeline_id (heap \<sigma>b3 ! pb)"
  proof -
    have "heap \<sigma>b3 ! pb = heap \<sigma>b ! pb"
      using oth Suc.prems(2) by (simp add: \<sigma>b2_def nth_append)
    moreover have "pipeline_id (heap \<sigma>a1 ! pa) = pipeline_id (heap \<sigma>b ! pb)"
      using Suc.prems(1) by (simp add: \<sigma>a1_def cur_def)
    ultimately show ?thesis using ida by simp
  qed
  show ?case
  proof (cases eb)
    case None
    with same val show ?thesis unfolding ISN UOL by simp
  next
    case (Some e)
    show ?thesis
    proof (cases "errors_Is e ErrVersionConflict")
      case False
      with Some same show ?thesis unfolding ISN UOL by simp
    next
      case True
      obtain ra \<sigma>a3 where fa: "pipelineStore_Find B (pipeline_id (heap \<sigma>b3 ! pb)) \<sigma>a2 = (ra, \<sigma>a3)"
        by (cases "pipelineStore_Find B (pipeline_id (heap \<sigma>b3 ! pb)) \<sigma>a2")
      obtain rb \<sigma>b4 where fb: "pipelineStore_Find B (pipeline_id (heap \<sigma>b3 ! pb)) \<sigma>b3 = (rb, \<sigma>b4)"
        by (cases "pipelineStore_Find B (pipeline_id (heap \<sigma>b3 ! pb)) \<sigma>b3")
      from Find_agree [OF same(2,3) fa fb]
      have same4: "db \<sigma>a3 = db \<sigma>b4" "trace \<sigma>a3 = trace \<sigma>b4"
        and alt: "(\<exists>e. ra = Inl e \<and> rb = Inl e)
          \<or> (\<exists>row. ra = Inr (length (heap \<sigma>a2)) \<and> rb = Inr (length (heap \<sigma>b3))
                \<and> heap \<sigma>a3 = heap \<sigma>a2 @ [row] \<and> heap \<sigma>b4 = heap \<sigma>b3 @ [row])"
        by blast+
      from alt show ?thesis
      proof (elim disjE exE conjE)
        fix e' assume "ra = Inl e'" "rb = Inl e'"
        with Some True same same4 fa fb ids show ?thesis unfolding ISN UOL by simp
      next
        fix row
        assume r: "ra = Inr (length (heap \<sigma>a2))" "rb = Inr (length (heap \<sigma>b3))"
          and h: "heap \<sigma>a3 = heap \<sigma>a2 @ [row]" "heap \<sigma>b4 = heap \<sigma>b3 @ [row]"
        have IH: "case (pipelineStore_IncrementSeqNum n B (length (heap \<sigma>a2)) \<sigma>a3,
               pipelineStore_UpdateOptLock n B (length (heap \<sigma>b3)) incrementSeq \<sigma>b4) of
           (None, None) \<Rightarrow> True
         | (Some ((ptr1, err1), \<sigma>1), Some ((ptr2, err2), \<sigma>2)) \<Rightarrow>
             trace \<sigma>1 = trace \<sigma>2 \<and> db \<sigma>1 = db \<sigma>2 \<and>
             (case err2 of
                None \<Rightarrow> err1 = None \<and> (\<exists>a b. ptr1 = Some a \<and> ptr2 = Some b \<and> heap \<sigma>1 ! a = heap \<sigma>2 ! b)
              | Some e \<Rightarrow> ptr2 = None \<and> err1 = Some (Wrapped e could_not_increment))
         | _ \<Rightarrow> False"
          by (rule Suc.IH) (simp_all add: h same4)
        from Some True same fa fb ids r have
          "pipelineStore_IncrementSeqNum (Suc n) B pa \<sigma>a
             = pipelineStore_IncrementSeqNum n B (length (heap \<sigma>a2)) \<sigma>a3"
          "pipelineStore_UpdateOptLock (Suc n) B pb incrementSeq \<sigma>b
             = pipelineStore_UpdateOptLock n B (length (heap \<sigma>b3)) incrementSeq \<sigma>b4"
          unfolding ISN UOL by simp_all
        with IH show ?thesis by simp
      qed
    qed
  qed
qed

text \<open>
  C3, as the specification states it, fails: when the database is down, \<open>UpdateOptLock\<close>
  returns nil and the error of \<open>Update\<close>, while \<open>IncrementSeqNum\<close> returns its pipeline
  and that error wrapped.
\<close>

theorem IncrementSeqNum_as_UpdateOptLock_counterexample:
  "fst (the (pipelineStore_IncrementSeqNum 1 tabledb 0 s_down))
     = (Some 0, Some (Wrapped (SQLError (DriverError ''connection refused'') ''Failed to update pipeline'')
                       ''could not increment pipeline sequence number''))
   \<and> fst (the (pipelineStore_UpdateOptLock 1 tabledb 0 incrementSeq s_down))
     = (None, Some (SQLError (DriverError ''connection refused'') ''Failed to update pipeline''))"
  by code_simp

text \<open>
  C3, amended. For a valid pointer and any backend, \<open>IncrementSeqNum\<close> and
  \<open>UpdateOptLock\<close> with the mutation \<open>incrementSeq\<close> (which adds one to \<open>pipeline_seq\<close> and
  touches no other field) use up the same number of iterations, send the same statements
  in the same order and leave the database in the same state. When \<open>UpdateOptLock\<close>
  succeeds, so does \<open>IncrementSeqNum\<close>, and the two pipelines returned have the same
  fields. When \<open>UpdateOptLock\<close> fails with nil and an error, \<open>IncrementSeqNum\<close> fails with
  that error wrapped in "could not increment pipeline sequence number".
\<close>

theorem IncrementSeqNum_as_UpdateOptLock:
  assumes "p < length (heap \<sigma>)"
  shows "case (pipelineStore_IncrementSeqNum n B p \<sigma>,
               pipelineStore_UpdateOptLock n B p incrementSeq \<sigma>) of
           (None, None) \<Rightarrow> True
         | (Some ((ptr1, err1), \<sigma>1), Some ((ptr2, err2), \<sigma>2)) \<Rightarrow>
             trace \<sigma>1 = trace \<sigma>2 \<and> db \<sigma>1 = db \<sigma>2 \<and>
             (case err2 of
                None \<Rightarrow> err1 = None \<and> (\<exists>a b. ptr1 = Some a \<and> ptr2 = Some b \<and> heap \<sigma>1 ! a = heap \<sigma>2 ! b)
              | Some e \<Rightarrow> ptr2 = None \<and> err1 = Some (Wrapped e could_not_increment))
         | _ \<Rightarrow> False"
  using assms by (intro IncrementSeqNum_agrees) simp_all

lemma stale_runs:
  "case (pipelineStore_IncrementSeqNum 2 tabledb 0 s_stale,
         pipelineStore_UpdateOptLock 2 tabledb 0 incrementSeq s_stale) of
     (Some ((ptr1, err1), \<sigma>1), Some ((ptr2, err2), \<sigma>2)) \<Rightarrow>
        ptr1 = Some 1 \<and> err1 = None \<and> ptr2 = Some 3 \<and> err2 = None
        \<and> pipeline_seq (heap \<sigma>1 ! 1) = 6
   | _ \<Rightarrow> False"
  by code_simp

theorem IncrementSeqNum_as_UpdateOptLock_witness:
  "0 < length (heap s_stale)
   \<and> (\<exists>\<sigma>1 \<sigma>2. pipelineStore_IncrementSeqNum 2 tabledb 0 s_stale = Some ((Some 1, None), \<sigma>1)
         \<and> pipelineStore_UpdateOptLock 2 tabledb 0 incrementSeq s_stale = Some ((Some 3, None), \<sigma>2)
         \<and> trace \<sigma>1 = trace \<sigma>2 \<and> db \<sigma>1 = db \<sigma>2 \<and> heap \<sigma>1 ! 1 = heap \<sigma>2 ! 3
         \<and> pipeline_seq (heap \<sigma>2 ! 3) = 6)"
proof -
  have v: "0 < length (heap s_stale)" by (simp add: s_stale_def)
  obtain \<sigma>1 \<sigma>2 where
    r1: "pipelineStore_IncrementSeqNum 2 tabledb 0 s_stale = Some ((Some 1, None), \<sigma>1)"
    and r2: "pipelineStore_UpdateOptLock 2 tabledb 0 incrementSeq s_stale = Some ((Some 3, None), \<sigma>2)"
    and s: "pipeline_seq (heap \<sigma>1 ! 1) = 6"
    using stale_runs by (auto split: option.splits prod.splits)
  from IncrementSeqNum_as_UpdateOptLock [OF v, of 2 tabledb] r1 r2
  have "trace \<sigma>1 = trace \<sigma>2 \<and> db \<sigma>1 = db \<sigma>2 \<and> heap \<sigma>1 ! 1 = heap \<sigma>2 ! 3"
    by simp
  with v r1 r2 s show ?thesis by auto
qed


section \<open>Properties of the repository store\<close>

subsection \<open>What ParseInt accepts\<close>


lemma foldl_decimal_ge: "n \<le> foldl (\<lambda>a c. a * 10 + digit c) n cs"
proof (induction cs arbitrary: n)
  case Nil
  show ?case by simp
next
  case (Cons c cs)
  have "n \<le> n * 10 + digit c" by simp
  also have "\<dots> \<le> foldl (\<lambda>a c. a * 10 + digit c) (n * 10 + digit c) cs" by (rule Cons.IH)
  finally show ?case by simp
qed

lemma ParseUint_loop_digits:
  assumes "list_all is_digit cs" and "n \<le> maxUint64"
  shows "ParseUint_loop n cs =
    (if foldl (\<lambda>a c. a * 10 + digit c) n cs \<le> maxUint64
     then Inr (foldl (\<lambda>a c. a * 10 + digit c) n cs) else Inl ErrRange)"
  using assms
proof (induction cs arbitrary: n)
  case Nil
  then show ?case by simp
next
  case (Cons c cs)
  let ?n' = "n * 10 + digit c"
  have ge: "?n' \<le> foldl (\<lambda>a c. a * 10 + digit c) ?n' cs" by (rule foldl_decimal_ge)
  show ?case
  proof (cases "n \<ge> maxUint64 div 10 + 1")
    case True
    then have "?n' > maxUint64" by (simp add: maxUint64_def)
    with ge True Cons.prems show ?thesis by simp
  next
    case False
    show ?thesis
    proof (cases "?n' > maxUint64")
      case True
      with ge False Cons.prems show ?thesis by simp
    next
      case small: False
      with False Cons.prems Cons.IH [of ?n'] show ?thesis by simp
    qed
  qed
qed

lemma ParseUint_loop_not_digits:
  "\<not> list_all is_digit cs \<Longrightarrow> \<exists>e. ParseUint_loop n cs = Inl e"
  by (induction cs arbitrary: n) auto

lemma ParseUint_digits:
  "ParseUint s = Inr un \<longleftrightarrow> digits_only s \<and> decimal s \<le> maxUint64 \<and> un = decimal s"
proof (cases "digits_only s")
  case True
  then show ?thesis
    using ParseUint_loop_digits [of s 0]
    by (auto simp: ParseUint_def digits_only_def decimal_def)
next
  case False
  then show ?thesis
    using ParseUint_loop_not_digits [of s 0]
    by (auto simp: ParseUint_def digits_only_def)
qed

lemma ParseInt_Inr_iff:
  "ParseInt s = Inr i \<longleftrightarrow>
     (\<exists>v. signed_decimal s = Some v \<and> - (2 ^ 63) \<le> v \<and> v < 2 ^ 63 \<and> i = word_of_int v)"
proof (cases s)
  case Nil
  then show ?thesis by (simp add: ParseInt_def signed_decimal_def)
next
  case (Cons c cs)
  consider (plus) "c = CHR ''+''" | (minus) "c = CHR ''-''" | (other) "c \<noteq> CHR ''+''" "c \<noteq> CHR ''-''"
    by blast
  then show ?thesis
  proof cases
    case plus
    show ?thesis
    proof (cases "ParseUint cs")
      case (Inl e)
      then have "\<not> (digits_only cs \<and> decimal cs \<le> maxUint64)"
        using ParseUint_digits [of cs "decimal cs"] by auto
      with Inl Cons plus show ?thesis
        by (cases e) (auto simp: ParseInt_def signed_decimal_def maxUint64_def)
    next
      case (Inr un)
      then have "digits_only cs" "un = decimal cs"
        using ParseUint_digits [of cs un] by auto
      with Inr Cons plus show ?thesis
        by (auto simp: ParseInt_def signed_decimal_def)
    qed
  next
    case minus
    show ?thesis
    proof (cases "ParseUint cs")
      case (Inl e)
      then have "\<not> (digits_only cs \<and> decimal cs \<le> maxUint64)"
        using ParseUint_digits [of cs "decimal cs"] by auto
      with Inl Cons minus show ?thesis
        by (cases e) (auto simp: ParseInt_def signed_decimal_def maxUint64_def)
    next
      case (Inr un)
      then have "digits_only cs" "un = decimal cs"
        using ParseUint_digits [of cs un] by auto
      with Inr Cons minus show ?thesis
        by (auto simp: ParseInt_def signed_decimal_def)
    qed
  next
    case other
    show ?thesis
    proof (cases "ParseUint s")
      case (Inl e)
      then have "\<not> (digits_only s \<and> decimal s \<le> maxUint64)"
        using ParseUint_digits [of s "decimal s"] by auto
      with Inl Cons other show ?thesis
        by (cases e) (auto simp: ParseInt_def signed_decimal_def maxUint64_def)
    next
      case (Inr un)
      then have "digits_only s" "un = decimal s"
        using ParseUint_digits [of s un] by auto
      with Inr Cons other show ?thesis
        by (auto simp: ParseInt_def signed_decimal_def)
    qed
  qed
qed


subsection \<open>FindByPath and FindRepoFromRef\<close>

lemma GetContext_repo_eq:
  "GetContext_repo q result msg w =
     (if unfaulted 1 w
      then (case result of [] \<Rightarrow> Inl (SQLError ErrNoRows msg) | r # _ \<Rightarrow> Inr r)
      else Inl (SQLError (the (hd (faults w))) msg),
      w\<lparr>faults := tl (faults w), log := log w @ [q]\<rparr>)"
  by (cases "faults w"; cases "hd (faults w)")
     (auto simp: GetContext_repo_def driver_call_def unfaulted_def split: list.splits)

lemma repoSelectByPathUnique_sound:
  "r \<in> set (repoSelectByPathUnique u T) \<Longrightarrow>
   \<exists>p1 \<in> set (paths T). path_targetType p1 = PathTargetTypeRepo
       \<and> path_targetId p1 = repo_id r \<and> path_valueUnique p1 = u"
  by (auto simp: repoSelectByPathUnique_def)

text \<open>
  C6. \<open>FindByPath\<close> applies the injected normalization to the path first. If that fails,
  the call fails with the error wrapped and the database is not touched: no statement is
  sent. Otherwise the one statement sent is the select by the normalized value \<open>u\<close>, and
  the result is the first row of that select (or the driver's error, or "no rows"); so
  every path with the same normalized value gives the same result, and a repository that
  is found owns a path row whose \<open>path_valueUnique\<close> is \<open>u\<close>.
\<close>

theorem FindByPath_by_normalized_value:
  "(\<forall>err. pathTransformation s path = Inl err \<longrightarrow>
       RepoStore_FindByPath s path w
         = (Inl (Wrapped err (''failed to transform path '' @ quoted path)), w))
   \<and> (\<forall>u. pathTransformation s path = Inr u \<longrightarrow>
       RepoStore_FindByPath s path w =
         (if unfaulted 1 w
          then (case repoSelectByPathUnique u (committed w) of
                  [] \<Rightarrow> Inl (SQLError ErrNoRows ''Select query failed'')
                | r # _ \<Rightarrow> Inr r)
          else Inl (SQLError (the (hd (faults w))) ''Select query failed''),
          w\<lparr>faults := tl (faults w), log := log w @ [RepoSelectByPathUnique u]\<rparr>)
       \<and> (\<forall>path'. pathTransformation s path' = Inr u \<longrightarrow>
             RepoStore_FindByPath s path' w = RepoStore_FindByPath s path w)
       \<and> (\<forall>r. fst (RepoStore_FindByPath s path w) = Inr r \<longrightarrow>
             (\<exists>p1 \<in> set (paths (committed w)). path_targetType p1 = PathTargetTypeRepo
                 \<and> path_targetId p1 = repo_id r \<and> path_valueUnique p1 = u)))"
proof (intro conjI allI impI)
  fix err assume "pathTransformation s path = Inl err"
  then show "RepoStore_FindByPath s path w
         = (Inl (Wrapped err (''failed to transform path '' @ quoted path)), w)"
    by (simp add: RepoStore_FindByPath_def)
next
  fix u assume u: "pathTransformation s path = Inr u"
  then show eq: "RepoStore_FindByPath s path w =
         (if unfaulted 1 w
          then (case repoSelectByPathUnique u (committed w) of
                  [] \<Rightarrow> Inl (SQLError ErrNoRows ''Select query failed'')
                | r # _ \<Rightarrow> Inr r)
          else Inl (SQLError (the (hd (faults w))) ''Select query failed''),
          w\<lparr>faults := tl (faults w), log := log w @ [RepoSelectByPathUnique u]\<rparr>)"
    by (simp add: RepoStore_FindByPath_def GetContext_repo_eq)
  show "RepoStore_FindByPath s path' w = RepoStore_FindByPath s path w"
    if "pathTransformation s path' = Inr u" for path'
    using that u by (simp add: RepoStore_FindByPath_def)
  show "\<exists>p1 \<in> set (paths (committed w)). path_targetType p1 = PathTargetTypeRepo
                 \<and> path_targetId p1 = repo_id r \<and> path_valueUnique p1 = u"
    if "fst (RepoStore_FindByPath s path w) = Inr r" for r
  proof -
    from that have "r \<in> set (repoSelectByPathUnique u (committed w))"
      unfolding eq by (auto split: if_splits list.splits)
    then show ?thesis by (rule repoSelectByPathUnique_sound)
  qed
qed

lemma lower_examples:
  "lower ''ACME/repo1'' = Inr ''acme/repo1''"
  "lower ''acme/Repo1'' = Inr ''acme/repo1''"
  "lower [CHR 0xC3, CHR 0xA9] = Inl (OtherError ''not ascii'')"
  by code_simp+

theorem FindByPath_by_normalized_value_witness:
  "pathTransformation store0 ''ACME/repo1'' = Inr ''acme/repo1''
   \<and> pathTransformation store0 ''acme/Repo1'' = Inr ''acme/repo1''
   \<and> RepoStore_FindByPath store0 ''ACME/repo1'' w1 = RepoStore_FindByPath store0 ''acme/Repo1'' w1
   \<and> fst (RepoStore_FindByPath store0 ''ACME/repo1'' w1) = Inr (repo1\<lparr>repo_id := 42, repo_path := ''acme/Repo1''\<rparr>)
   \<and> log (snd (RepoStore_FindByPath store0 ''ACME/repo1'' w1)) = [RepoSelectByPathUnique ''acme/repo1'']
   \<and> pathTransformation store0 [CHR 0xC3, CHR 0xA9] = Inl (OtherError ''not ascii'')
   \<and> snd (RepoStore_FindByPath store0 [CHR 0xC3, CHR 0xA9] w1) = w1"
proof -
  have a: "pathTransformation store0 ''ACME/repo1'' = Inr ''acme/repo1''"
    and b: "pathTransformation store0 ''acme/Repo1'' = Inr ''acme/repo1''"
    and c: "pathTransformation store0 [CHR 0xC3, CHR 0xA9] = Inl (OtherError ''not ascii'')"
    by (simp_all add: store0_def lower_examples)
  have sel: "repoSelectByPathUnique ''acme/repo1'' (committed w1)
             = [repo1\<lparr>repo_id := 42, repo_path := ''acme/Repo1''\<rparr>]"
    by (simp add: repoSelectByPathUnique_def w1_def is_primary_of_def space_path_def
        repo1_path_def repo2_path_def digits_path_def repo1_def)
  have un: "unfaulted 1 w1" "log w1 = []" by (simp_all add: unfaulted_def w1_def)
  note T = FindByPath_by_normalized_value [of store0 "''ACME/repo1''" w1]
  note T' = FindByPath_by_normalized_value [of store0 "[CHR 0xC3, CHR 0xA9]" w1]
  have 1: "RepoStore_FindByPath store0 ''ACME/repo1'' w1 = RepoStore_FindByPath store0 ''acme/Repo1'' w1"
    using T a b by metis
  have 2: "fst (RepoStore_FindByPath store0 ''ACME/repo1'' w1) = Inr (repo1\<lparr>repo_id := 42, repo_path := ''acme/Repo1''\<rparr>)"
    "log (snd (RepoStore_FindByPath store0 ''ACME/repo1'' w1)) = [RepoSelectByPathUnique ''acme/repo1'']"
    using T a sel un by simp_all
  have 3: "snd (RepoStore_FindByPath store0 [CHR 0xC3, CHR 0xA9] w1) = w1"
    using T' c by simp
  from a b c 1 2 3 show ?thesis by simp
qed


lemma digits_only_signed_decimal:
  assumes "digits_only s"
  shows "signed_decimal s = Some (int (decimal s))"
proof (cases s)
  case Nil
  with assms show ?thesis by (simp add: digits_only_def)
next
  case (Cons c cs)
  with assms have "is_digit c" by (simp add: digits_only_def)
  then have "c \<noteq> CHR ''+''" "c \<noteq> CHR ''-''" by (auto simp: is_digit_def)
  with Cons assms show ?thesis by (simp add: signed_decimal_def)
qed

lemma ParseInt_digits_only:
  assumes "digits_only s"
  shows "decimal s < 2 ^ 63 \<Longrightarrow> ParseInt s = Inr (word_of_nat (decimal s))"
    and "2 ^ 63 \<le> decimal s \<Longrightarrow> \<forall>i. ParseInt s \<noteq> Inr i"
proof -
  note sd = digits_only_signed_decimal [OF assms]
  show "ParseInt s = Inr (word_of_nat (decimal s))" if "decimal s < 2 ^ 63"
  proof -
    have "int (decimal s) < 2 ^ 63" using that by simp
    then show ?thesis
      using sd by (subst ParseInt_Inr_iff) (simp add: word_of_nat_eq_iff)
  qed
  show "\<forall>i. ParseInt s \<noteq> Inr i" if "2 ^ 63 \<le> decimal s"
  proof -
    have "\<not> int (decimal s) < 2 ^ 63" using that by simp
    then show ?thesis
      using sd by (simp add: ParseInt_Inr_iff)
  qed
qed

lemma Find_log:
  "log (snd (RepoStore_Find s i w)) = log w @ [RepoSelectByID i]"
  by (simp add: RepoStore_Find_def GetContext_repo_eq)

text \<open>
  C8, as stated, fails in its last part: repository 43 has an alias path that consists
  only of digits, yet \<open>FindRepoFromRef\<close> finds the repository by that path, because the
  digits denote \<open>2^63\<close>, which \<open>ParseInt\<close> rejects as out of range.
\<close>

theorem FindRepoFromRef_by_id_or_path_counterexample:
  "digits_only ''9223372036854775808''
   \<and> fst (RepoStore_FindRepoFromRef store0 ''9223372036854775808'' w1)
       = Inr (repo1\<lparr>repo_id := 43, repo_uid := ''Repo2'', repo_path := ''acme/Repo2''\<rparr>)
   \<and> log (snd (RepoStore_FindRepoFromRef store0 ''9223372036854775808'' w1))
       = [RepoSelectByPathUnique ''9223372036854775808'']"
proof -
  have d: "digits_only ''9223372036854775808''"
    by (simp add: digits_only_def is_digit_def)
  have p: "ParseInt ''9223372036854775808'' = Inl ErrRange"
    by (simp add: ParseInt_def ParseUint_def is_digit_def digit_def maxUint64_def)
  have l: "lower ''9223372036854775808'' = Inr ''9223372036854775808''"
    by code_simp
  have sel: "repoSelectByPathUnique ''9223372036854775808'' (committed w1)
             = [repo1\<lparr>repo_id := 43, repo_uid := ''Repo2'', repo_path := ''acme/Repo2''\<rparr>]"
    by (simp add: repoSelectByPathUnique_def w1_def is_primary_of_def space_path_def
        repo1_path_def repo2_path_def digits_path_def repo1_def)
  have un: "unfaulted 1 w1" "log w1 = []" by (simp_all add: unfaulted_def w1_def)
  show ?thesis
    using d p l sel un
    by (simp add: RepoStore_FindRepoFromRef_def RepoStore_FindByPath_def store0_def
        GetContext_repo_eq)
qed

text \<open>
  C8, amended. A reference that \<open>ParseInt\<close> accepts is resolved by \<open>Find\<close> on the number,
  and the one statement sent is the select by id; a reference that \<open>ParseInt\<close> rejects is
  resolved by \<open>FindByPath\<close>. \<open>ParseInt\<close> accepts exactly an optional sign followed by
  decimal digits whose value lies in \<open>-2^63 .. 2^63 - 1\<close>. So a reference made only of
  digits goes to \<open>Find\<close> when its value is below \<open>2^63\<close>, and to \<open>FindByPath\<close> when it is
  \<open>2^63\<close> or more.
\<close>

theorem FindRepoFromRef_by_id_or_path:
  "(\<forall>i. ParseInt repoRef = Inr i \<longrightarrow>
       RepoStore_FindRepoFromRef s repoRef w = RepoStore_Find s i w
       \<and> log (snd (RepoStore_FindRepoFromRef s repoRef w)) = log w @ [RepoSelectByID i])
   \<and> ((\<forall>i. ParseInt repoRef \<noteq> Inr i) \<longrightarrow>
       RepoStore_FindRepoFromRef s repoRef w = RepoStore_FindByPath s repoRef w)
   \<and> ((\<exists>i. ParseInt repoRef = Inr i) \<longleftrightarrow>
       (\<exists>v. signed_decimal repoRef = Some v \<and> - (2 ^ 63) \<le> v \<and> v < 2 ^ 63))
   \<and> (digits_only repoRef \<and> decimal repoRef < 2 ^ 63 \<longrightarrow>
       RepoStore_FindRepoFromRef s repoRef w = RepoStore_Find s (word_of_nat (decimal repoRef)) w)
   \<and> (digits_only repoRef \<and> 2 ^ 63 \<le> decimal repoRef \<longrightarrow>
       RepoStore_FindRepoFromRef s repoRef w = RepoStore_FindByPath s repoRef w)"
proof -
  have by_id: "RepoStore_FindRepoFromRef s repoRef w = RepoStore_Find s i w"
    if "ParseInt repoRef = Inr i" for i
    using that by (simp add: RepoStore_FindRepoFromRef_def)
  have by_path: "RepoStore_FindRepoFromRef s repoRef w = RepoStore_FindByPath s repoRef w"
    if "\<forall>i. ParseInt repoRef \<noteq> Inr i"
    using that by (cases "ParseInt repoRef") (simp_all add: RepoStore_FindRepoFromRef_def)
  have acc: "(\<exists>i. ParseInt repoRef = Inr i) \<longleftrightarrow>
       (\<exists>v. signed_decimal repoRef = Some v \<and> - (2 ^ 63) \<le> v \<and> v < 2 ^ 63)"
    unfolding ParseInt_Inr_iff by blast
  show ?thesis
    using by_id by_path acc ParseInt_digits_only [of repoRef] Find_log [of s _ w]
    by (intro conjI allI impI) auto
qed

theorem FindRepoFromRef_by_id_or_path_witness:
  "ParseInt ''43'' = Inr 43
   \<and> RepoStore_FindRepoFromRef store0 ''43'' w1 = RepoStore_Find store0 43 w1
   \<and> log (snd (RepoStore_FindRepoFromRef store0 ''43'' w1)) = [RepoSelectByID 43]
   \<and> digits_only ''9223372036854775808'' \<and> (2 :: nat) ^ 63 \<le> decimal ''9223372036854775808''
   \<and> RepoStore_FindRepoFromRef store0 ''9223372036854775808'' w1
       = RepoStore_FindByPath store0 ''9223372036854775808'' w1"
proof -
  have p: "ParseInt ''43'' = Inr 43"
    by (simp add: ParseInt_def ParseUint_def is_digit_def digit_def maxUint64_def)
  have d: "digits_only ''9223372036854775808''"
    by (simp add: digits_only_def is_digit_def)
  have v: "(2 :: nat) ^ 63 \<le> decimal ''9223372036854775808''"
    by (simp add: decimal_def digit_def)
  have l: "log w1 = []" by (simp add: w1_def)
  from FindRepoFromRef_by_id_or_path [of "''43''" store0 w1] p
  have 0: "RepoStore_FindRepoFromRef store0 ''43'' w1 = RepoStore_Find store0 43 w1"
    "log (snd (RepoStore_FindRepoFromRef store0 ''43'' w1)) = log w1 @ [RepoSelectByID 43]"
    by blast+
  have 1: "RepoStore_FindRepoFromRef store0 ''43'' w1 = RepoStore_Find store0 43 w1"
    "log (snd (RepoStore_FindRepoFromRef store0 ''43'' w1)) = [RepoSelectByID 43]"
    using 0(1) apply blast
    using 0(2) l by (simp only: append_Nil)
  from FindRepoFromRef_by_id_or_path [of "''9223372036854775808''" store0 w1] d v
  have 2: "RepoStore_FindRepoFromRef store0 ''9223372036854775808'' w1
       = RepoStore_FindByPath store0 ''9223372036854775808'' w1"
    by blast
  from p d v 1 2 show ?thesis by blast
qed

end
